theory Spec2Isabelle
  imports Complex_Main "HOL-Library.Multiset" "HOL-Library.Log_Nat"
begin

section \<open>Python and SQL values\<close>

text \<open>
  The service is a Flask application (\<^verbatim>\<open>app.py\<close>) with a companion learning engine
  (\<^verbatim>\<open>cip_engine_readiness.py\<close>); both talk to one PostgreSQL database.
  Numbers are rationals: a Python \<^verbatim>\<open>int\<close> is an integer, a Python \<^verbatim>\<open>float\<close> is the rational
  that the double stands for, and every float operation rounds its exact result to the
  nearest double (\<open>fl\<close> below).

  \<^verbatim>\<open>round(x)\<close> with one argument rounds to the nearest integer and, on a tie, to the
  even neighbour.
\<close>

definition py_round :: "rat \<Rightarrow> int" where
  "py_round x =
     (let f = \<lfloor>x\<rfloor>; d = x - of_int f in
      if d < 1 / 2 then f
      else if 1 / 2 < d then f + 1
      else if even f then f else f + 1)"

text \<open>
  Rounding to the nearest double: 53 significant bits, ties to the even significand.
  \<open>ilog2 x\<close> is the exponent \<open>e\<close> with \<open>2 ^ e \<le> x < 2 ^ (e + 1)\<close> of a positive \<open>x\<close>.
  Overflow and subnormal numbers are left out: \<open>fl\<close> is the rounding of a double for
  0 and for the numbers between \<open>2 ^ (- 1022)\<close> and \<open>2 ^ 1023\<close> in absolute value.
\<close>

definition ilog2 :: "rat \<Rightarrow> int" where
  "ilog2 x = (if 1 \<le> x then bitlen \<lfloor>x\<rfloor> - 1 else - bitlen (\<lceil>1 / x\<rceil> - 1))"

definition fl :: "rat \<Rightarrow> rat" where
  "fl x =
     (if x = 0 then 0
      else let u = 2 powi (ilog2 \<bar>x\<bar> - 52)
           in of_int (py_round (x / u)) * u)"

text \<open>
  A JSON number is parsed to a Python \<^verbatim>\<open>int\<close> or \<^verbatim>\<open>float\<close>. \<open>as_float\<close> is the conversion
  that arithmetic with a float applies to an \<^verbatim>\<open>int\<close>.
\<close>

datatype py_num = PyInt int | PyFloat rat

fun as_float :: "py_num \<Rightarrow> rat" where
  "as_float (PyInt i) = fl (of_int i)"
| "as_float (PyFloat x) = x"

text \<open>\<^verbatim>\<open>a + b\<close>: exact on two \<^verbatim>\<open>int\<close>s, a float addition otherwise.\<close>

fun py_add :: "py_num \<Rightarrow> py_num \<Rightarrow> py_num" where
  "py_add (PyInt a) (PyInt b) = PyInt (a + b)"
| "py_add x y = PyFloat (fl (as_float x + as_float y))"

text \<open>
  \<^verbatim>\<open>sum(values)\<close> starts from the \<^verbatim>\<open>int\<close> 0 and adds from left to right. (From
  Python 3.12 on, \<^verbatim>\<open>sum\<close> compensates the rounding errors of float additions; the two
  agree on \<^verbatim>\<open>int\<close>s and on a list of one element.)
\<close>

definition py_sum :: "py_num list \<Rightarrow> py_num" where
  "py_sum values = fold (\<lambda>v acc. py_add acc v) values (PyInt 0)"

text \<open>
  \<^verbatim>\<open>x / n\<close> for a length \<open>n\<close>, a float. For a float \<open>x\<close> it is the rounded quotient. For
  an \<^verbatim>\<open>int\<close> \<open>x\<close> CPython returns the correctly rounded quotient of the two integers;
  the exact quotient is kept here, and the call of \<^verbatim>\<open>round\<close> that follows gives the same
  integer for both as long as \<open>\<bar>x\<bar> < 2 ^ 52\<close> (lemma \<open>int_truediv_round\<close>).
\<close>

fun py_truediv :: "py_num \<Rightarrow> nat \<Rightarrow> rat" where
  "py_truediv (PyInt a) n = of_int a / of_nat n"
| "py_truediv (PyFloat x) n = fl (x / fl (of_nat n))"

text \<open>\<^verbatim>\<open>int(x)\<close> on a float truncates towards zero.\<close>

definition py_int :: "rat \<Rightarrow> int" where
  "py_int x = (if 0 \<le> x then \<lfloor>x\<rfloor> else \<lceil>x\<rceil>)"

text \<open>\<^verbatim>\<open>str(n)\<close> for a natural number and for an integer: decimal digits, no padding.\<close>

definition digit :: "nat \<Rightarrow> char" where
  "digit k = ''0123456789'' ! k"

fun str_nat :: "nat \<Rightarrow> string" where
  "str_nat n = (if 10 \<le> n then str_nat (n div 10) @ [digit (n mod 10)] else [digit n])"

declare str_nat.simps [simp del]

definition str_int :: "int \<Rightarrow> string" where
  "str_int i = (if 0 \<le> i then str_nat (nat i) else CHR ''-'' # str_nat (nat \<bar>i\<bar>))"

text \<open>
  A Python \<^verbatim>\<open>dict\<close> with string keys is an association list in insertion order (its keys
  are distinct); \<^verbatim>\<open>d.get(k, default)\<close> is \<open>py_get\<close>. An \<^verbatim>\<open>f\<close>-string prints
  \<^verbatim>\<open>None\<close> for an absent value.
\<close>

definition py_get :: "('k \<times> 'v) list \<Rightarrow> 'k \<Rightarrow> 'v \<Rightarrow> 'v" where
  "py_get d k dflt = (case map_of d k of None \<Rightarrow> dflt | Some v \<Rightarrow> v)"

definition fmt_opt :: "string option \<Rightarrow> string" where
  "fmt_opt s = (case s of None \<Rightarrow> ''None'' | Some t \<Rightarrow> t)"

text \<open>Truthiness of an optional string (\<^verbatim>\<open>None\<close> and \<^verbatim>\<open>''\<close> are falsy) and of an integer.\<close>

definition truthy_str :: "string option \<Rightarrow> bool" where
  "truthy_str s = (case s of None \<Rightarrow> False | Some t \<Rightarrow> t \<noteq> [])"

definition truthy_int :: "int \<Rightarrow> bool" where
  "truthy_int i = (i \<noteq> 0)"

datatype py_error = TypeError

section \<open>The scoring of \<^verbatim>\<open>assess_readiness\<close>\<close>

text \<open>\<^verbatim>\<open>overall_score = round(sum(values) / len(values))\<close>, for a non-empty dict.\<close>

definition calc_overall_score :: "(string \<times> py_num) list \<Rightarrow> int" where
  "calc_overall_score answers =
     (let values = map snd answers
      in py_round (py_truediv (py_sum values) (length values)))"

definition categories :: "(string \<times> nat list) list" where
  "categories =
     [(''Data Infrastructure'', [1]),
      (''Process Maturity'', [2]),
      (''Team Readiness'', [3]),
      (''Financial Capacity'', [4]),
      (''Problem Definition'', [5]),
      (''Technical Foundation'', [6]),
      (''Decision Authority'', [7])]"

text \<open>
  The loop over \<^verbatim>\<open>categories.items()\<close>: each category's answers are looked up under
  \<^verbatim>\<open>str(q)\<close> with default 0, and their mean is rounded.
\<close>

definition calc_category_scores :: "(string \<times> py_num) list \<Rightarrow> (string \<times> int) list" where
  "calc_category_scores answers =
     map (\<lambda>(category, question_nums).
            let category_values =
                  map (\<lambda>q. py_get answers (str_nat q) (PyInt 0)) question_nums
            in (category,
                py_round (py_truediv (py_sum category_values) (length category_values))))
         categories"

record tier =
  level :: string
  description :: string
  recommendation :: string
  next_steps :: "string list"

definition readiness_tier :: "int \<Rightarrow> tier" where
  "readiness_tier overall_score =
     (if 80 \<le> overall_score then
        \<lparr>level = ''Highly Ready for AI'',
         description = ''Your business has excellent foundations for AI implementation. You're positioned to see significant ROI quickly.'',
         recommendation = ''You're in the top 15% of businesses we've analyzed. Let's build something powerful together.'',
         next_steps =
           [''Schedule discovery call to identify specific automation opportunities'',
            ''Review your tech stack for integration points'',
            ''Create detailed implementation roadmap with ROI projections'']\<rparr>
      else if 60 \<le> overall_score then
        \<lparr>level = ''Ready with Some Preparation'',
         description = ''You have solid foundations but a few gaps to address. With targeted preparation, AI can transform your operations.'',
         recommendation = ''You're in good shape. Let's identify the quick wins and create a roadmap for the rest.'',
         next_steps =
           [''Address gaps in low-scoring categories'',
            ''Start with one high-impact automation project'',
            ''Build internal processes to support AI adoption'']\<rparr>
      else if 40 \<le> overall_score then
        \<lparr>level = ''Moderate Readiness'',
         description = ''You have potential but need foundational work before AI implementation. The good news: we know exactly what to fix.'',
         recommendation = ''AI can still help you, but let's start with the basics. We'll show you the path forward.'',
         next_steps =
           [''Focus on data organization and process documentation'',
            ''Invest in team training and change management'',
            ''Consider starting with simple automation before full AI'']\<rparr>
      else
        \<lparr>level = ''Early Stage'',
         description = ''You're in the exploration phase. AI is possible but requires significant groundwork first.'',
         recommendation = ''No problem - everyone starts somewhere. Let's talk about what low-hanging fruit makes sense for you now.'',
         next_steps =
           [''Document existing workflows and pain points'',
            ''Digitize manual processes'',
            ''Build team comfort with basic automation tools'']\<rparr>)"

text \<open>
  \<^verbatim>\<open>sorted(category_scores.items(), key=lambda x: x[1])[:3]\<close>. Python's \<^verbatim>\<open>sorted\<close> is
  stable, and so is \<open>sort_key\<close>; a stable sort has one result, whatever the algorithm.
\<close>

definition calc_weak_categories :: "(string \<times> int) list \<Rightarrow> (string \<times> int) list" where
  "calc_weak_categories category_scores = take 3 (sort_key snd category_scores)"

section \<open>The database\<close>

text \<open>
  Three tables. The schema file is not part of the sources; the columns are those the
  statements name. Timestamps (\<^verbatim>\<open>NOW()\<close>) are left out.

  \<^verbatim>\<open>pattern_data\<close> holds the JSON documents the program writes
  (\<^verbatim>\<open>{'industry': i}\<close>, \<^verbatim>\<open>{'category': c}\<close>,
  \<^verbatim>\<open>{'score_range': r, 'industry': i}\<close>, where an absent industry is written as
  \<^verbatim>\<open>null\<close>); two keys are equal when the documents are.
  \<^verbatim>\<open>frequency\<close> is a count, and \<^verbatim>\<open>avg_score\<close> is an exact numeric column that is
  \<^verbatim>\<open>NULL\<close> for rows written without a score.
\<close>

datatype pattern_data =
    Industry "string option"
  | Category string
  | ScoreRange string "string option"

record assessment_row =
  a_id :: nat
  a_company_name :: string
  a_industry :: "string option"
  a_email :: "string option"
  a_answers :: "(string \<times> py_num) list"
  a_overall_score :: int
  a_category_scores :: "(string \<times> int) list"
  a_readiness_level :: string

record pattern_row =
  pattern_type :: string
  pattern_data :: pattern_data
  frequency :: nat
  avg_score :: "rat option"

datatype supporting_data =
    TopReadyIndustry "string option" rat nat
  | TopBlocker "string option" nat rat
  | ConversionPotential nat nat rat

record insight_row =
  insight_type :: string
  confidence :: rat
  supporting_data :: supporting_data

text \<open>
  Modelled from the spec: the identifier of an assessment is assigned by the store at
  insert (\<^verbatim>\<open>RETURNING id\<close>); the table's definition is missing, so the store keeps the
  next identifier.
\<close>

record db =
  readiness_assessments :: "assessment_row list"
  readiness_patterns :: "pattern_row list"
  readiness_insights :: "insight_row list"
  next_assessment_id :: nat

definition has_key :: "string \<Rightarrow> pattern_data \<Rightarrow> pattern_row \<Rightarrow> bool" where
  "has_key t d r = (pattern_type r = t \<and> pattern_data r = d)"

text \<open>
  The upsert with a score:
  \<^verbatim>\<open>INSERT ... VALUES (t, d, 1, s, NOW()) ON CONFLICT (pattern_type, pattern_data) DO UPDATE SET
  frequency = frequency + 1, avg_score = (avg_score * frequency + EXCLUDED.avg_score) / (frequency + 1)\<close>.
  Modelled from the spec: the table is unique on \<open>(pattern_type, pattern_data)\<close>, so the
  conflicting row is the one row with the key; arithmetic on a \<^verbatim>\<open>NULL\<close> is \<^verbatim>\<open>NULL\<close>.

  The type of the \<^verbatim>\<open>avg_score\<close> column is declared in the schema file, which is not among
  the sources. A decimal column computes the product and the sum exactly and rounds the
  quotient as its type prescribes: this rounding is the parameter \<open>rnd\<close> of everything
  that writes a pattern (the identity for a store that divides exactly). The scores
  written are small integers, which every numeric type keeps as they are.
\<close>

fun upsert_scored ::
  "(rat \<Rightarrow> rat) \<Rightarrow> string \<Rightarrow> pattern_data \<Rightarrow> rat \<Rightarrow> pattern_row list \<Rightarrow> pattern_row list" where
  "upsert_scored rnd t d s [] =
     [\<lparr>pattern_type = t, pattern_data = d, frequency = 1, avg_score = Some s\<rparr>]"
| "upsert_scored rnd t d s (r # rs) =
     (if has_key t d r then
        r\<lparr>frequency := frequency r + 1,
          avg_score :=
            (case avg_score r of
               None \<Rightarrow> None
             | Some a \<Rightarrow>
                 Some (rnd ((a * of_nat (frequency r) + s) / of_nat (frequency r + 1))))\<rparr> # rs
      else r # upsert_scored rnd t d s rs)"

text \<open>
  PostgreSQL's \<^verbatim>\<open>numeric\<close> division rounds the quotient, half away from zero, to a scale
  that gives at least 16 significant digits; for a quotient between 1 and 9999 of
  operands with at most 16 fractional digits that scale is 16.
\<close>

definition numeric16 :: "rat \<Rightarrow> rat" where
  "numeric16 x =
     (if 0 \<le> x then of_int \<lfloor>x * 10 ^ 16 + 1 / 2\<rfloor> / 10 ^ 16
      else - (of_int \<lfloor>- x * 10 ^ 16 + 1 / 2\<rfloor> / 10 ^ 16))"

text \<open>
  The upsert without a score (the \<^verbatim>\<open>high_performer\<close> rows):
  \<^verbatim>\<open>INSERT ... (pattern_type, pattern_data, frequency, last_updated) VALUES (t, d, 1, NOW())
  ON CONFLICT ... DO UPDATE SET frequency = frequency + 1\<close>.
\<close>

fun upsert_freq :: "string \<Rightarrow> pattern_data \<Rightarrow> pattern_row list \<Rightarrow> pattern_row list" where
  "upsert_freq t d [] =
     [\<lparr>pattern_type = t, pattern_data = d, frequency = 1, avg_score = None\<rparr>]"
| "upsert_freq t d (r # rs) =
     (if has_key t d r then r\<lparr>frequency := frequency r + 1\<rparr> # rs
      else r # upsert_freq t d rs)"

section \<open>\<^verbatim>\<open>POST /api/assess\<close>\<close>

record request =
  req_company_name :: "string option"
  req_industry :: "string option"
  req_email :: "string option"
  req_answers :: "(string \<times> py_num) list option"

record response =
  assessment_id :: nat
  overall_score :: int
  category_scores :: "(string \<times> int) list"
  readiness_level :: string
  resp_description :: string
  resp_recommendation :: string
  resp_next_steps :: "string list"
  weak_areas :: "string list"

datatype 'a http_result = Http400 string | Http200 'a

text \<open>
  The handler: validation, scoring, one insert into \<^verbatim>\<open>readiness_assessments\<close>, the
  pattern upserts, commit, and the JSON body. \<^verbatim>\<open>not answers\<close> holds for an absent and
  for an empty dict. The handler opens its own connection and commits once at the end, so
  the database it leaves is the one after all its statements.
\<close>

definition assess_readiness ::
  "(rat \<Rightarrow> rat) \<Rightarrow> request \<Rightarrow> db \<Rightarrow> response http_result \<times> db" where
  "assess_readiness rnd data conn =
     (let company_name = (case req_company_name data of None \<Rightarrow> ''Anonymous'' | Some c \<Rightarrow> c);
          industry = req_industry data;
          email = req_email data
      in case req_answers data of
           None \<Rightarrow> (Http400 ''No answers provided'', conn)
         | Some answers \<Rightarrow>
             if answers = [] then (Http400 ''No answers provided'', conn)
             else
               let overall_score = calc_overall_score answers;
                   category_scores = calc_category_scores answers;
                   t = readiness_tier overall_score;
                   weak_categories = calc_weak_categories category_scores;
                   assessment_id = next_assessment_id conn;
                   conn1 = conn
                     \<lparr>readiness_assessments := readiness_assessments conn @
                        [\<lparr>a_id = assessment_id, a_company_name = company_name,
                          a_industry = industry, a_email = email, a_answers = answers,
                          a_overall_score = overall_score,
                          a_category_scores = category_scores,
                          a_readiness_level = level t\<rparr>],
                      next_assessment_id := Suc assessment_id\<rparr>;
                   conn2 =
                     (if truthy_str industry \<and> truthy_int overall_score then
                        conn1\<lparr>readiness_patterns :=
                          upsert_scored rnd ''industry_readiness'' (Industry industry)
                            (of_int overall_score) (readiness_patterns conn1)\<rparr>
                      else conn1);
                   conn3 = conn2\<lparr>readiness_patterns :=
                     fold (\<lambda>(category, score).
                             upsert_scored rnd ''weak_category'' (Category category) (of_int score))
                       weak_categories (readiness_patterns conn2)\<rparr>
               in (Http200
                     \<lparr>assessment_id = assessment_id, overall_score = overall_score,
                      category_scores = category_scores, readiness_level = level t,
                      resp_description = description t,
                      resp_recommendation = recommendation t,
                      resp_next_steps = next_steps t,
                      weak_areas = map fst weak_categories\<rparr>,
                   conn3))"

section \<open>\<^verbatim>\<open>GET /api/percentile/<score>\<close>\<close>

record percentile_response =
  percentile :: int
  message :: string

text \<open>
  The route's \<^verbatim>\<open><int:score>\<close> accepts the non-negative integers only.
  \<^verbatim>\<open>round((lower_count / total) * 100)\<close>, or 50 when the table is empty: the quotient of the
  two counts is a float, and so is its product with 100.
\<close>

definition get_percentile :: "nat \<Rightarrow> db \<Rightarrow> percentile_response" where
  "get_percentile score conn =
     (let lower_count =
            length (filter (\<lambda>a. a_overall_score a < int score) (readiness_assessments conn));
          total = length (readiness_assessments conn);
          percentile =
            (if total = 0 then 50
             else py_round (fl (fl (of_nat lower_count / of_nat total) * 100)))
      in \<lparr>percentile = percentile,
          message = ''You're in the top '' @ str_int (100 - percentile) @
                    ''% of businesses we've analyzed''\<rparr>)"

section \<open>The learning engine \<^verbatim>\<open>CIPEngineReadiness\<close>\<close>

text \<open>
  The engine keeps one connection, and the database value below is the database as that
  connection sees it. A method that raises is modelled by the error alone: the
  statements it ran before raising stay in the connection's open transaction (those of
  \<^verbatim>\<open>log_patterns\<close> are already committed when the exception comes from the trigger),
  and the result says nothing about them.
  The argument of \<^verbatim>\<open>log_patterns\<close> is a dict read with \<^verbatim>\<open>get\<close>, so each entry may be absent.
\<close>

record assessment_data =
  ad_industry :: "string option"
  ad_overall_score :: "int option"
  ad_category_scores :: "(string \<times> int) list option"

text \<open>The JSON field reads \<^verbatim>\<open>pattern_data->>'industry'\<close> and \<^verbatim>\<open>pattern_data->>'category'\<close>.\<close>

definition industry_of :: "pattern_data \<Rightarrow> string option" where
  "industry_of d = (case d of Industry i \<Rightarrow> i | Category c \<Rightarrow> None | ScoreRange r i \<Rightarrow> i)"

definition category_of :: "pattern_data \<Rightarrow> string option" where
  "category_of d = (case d of Industry i \<Rightarrow> None | Category c \<Rightarrow> Some c | ScoreRange r i \<Rightarrow> None)"

text \<open>
  The two pattern queries, shared by \<^verbatim>\<open>analyze_patterns\<close> and
  \<^verbatim>\<open>generate_monthly_report\<close>. \<^verbatim>\<open>ORDER BY avg_score DESC\<close> puts \<^verbatim>\<open>NULL\<close> first; rows with
  equal sort keys come in an order the store chooses, here the order of the table.
\<close>

definition query_top_industries :: "db \<Rightarrow> pattern_row list" where
  "query_top_industries conn =
     (let rows = filter (\<lambda>r. pattern_type r = ''industry_readiness'' \<and> 3 \<le> frequency r)
                   (readiness_patterns conn)
      in take 5
           (filter (\<lambda>r. avg_score r = None) rows @
            sort_key (\<lambda>r. - (case avg_score r of None \<Rightarrow> 0 | Some a \<Rightarrow> a))
              (filter (\<lambda>r. avg_score r \<noteq> None) rows)))"

definition query_blocking_factors :: "db \<Rightarrow> pattern_row list" where
  "query_blocking_factors conn =
     take 5
       (sort_key (\<lambda>r. - int (frequency r))
          (filter (\<lambda>r. pattern_type r = ''blocking_factor'') (readiness_patterns conn)))"

text \<open>
  \<^verbatim>\<open>analyze_patterns\<close> writes up to three insight rows and commits. \<^verbatim>\<open>float(None)\<close>
  raises \<^verbatim>\<open>TypeError\<close>. The text of an insight is a rendering of the numbers kept in
  \<open>supporting_data\<close> and is left out.
\<close>

definition analyze_patterns :: "db \<Rightarrow> py_error + db" where
  "analyze_patterns conn =
     (let top_industries = query_top_industries conn;
          blocking_factors = query_blocking_factors conn;
          high_performers =
            length (filter (\<lambda>a. 75 \<le> a_overall_score a) (readiness_assessments conn));
          total = length (readiness_assessments conn);
          step1 =
            (case top_industries of
               [] \<Rightarrow> Inr []
             | top_industry # _ \<Rightarrow>
                 (case avg_score top_industry of
                    None \<Rightarrow> Inl TypeError
                  | Some a \<Rightarrow>
                      Inr [\<lparr>insight_type = ''top_ready_industry'', confidence = 90 / 100,
                            supporting_data =
                              TopReadyIndustry (industry_of (pattern_data top_industry)) a
                                (frequency top_industry)\<rparr>]));
          step2 =
            (case blocking_factors of
               [] \<Rightarrow> Inr []
             | top_blocker # _ \<Rightarrow>
                 (case avg_score top_blocker of
                    None \<Rightarrow> Inl TypeError
                  | Some a \<Rightarrow>
                      Inr [\<lparr>insight_type = ''top_blocker'', confidence = 95 / 100,
                            supporting_data =
                              TopBlocker (category_of (pattern_data top_blocker))
                                (frequency top_blocker) a\<rparr>]));
          step3 =
            (if 0 < total then
               [\<lparr>insight_type = ''conversion_potential'', confidence = 85 / 100,
                 supporting_data =
                   ConversionPotential high_performers total
                     ((of_nat high_performers / of_nat total) * 100)\<rparr>]
             else [])
      in case step1 of
           Inl e \<Rightarrow> Inl e
         | Inr i1 \<Rightarrow>
             (case step2 of
                Inl e \<Rightarrow> Inl e
              | Inr i2 \<Rightarrow>
                  Inr (conn\<lparr>readiness_insights := readiness_insights conn @ i1 @ i2 @ step3\<rparr>)))"

text \<open>\<^verbatim>\<open>_check_analysis_trigger\<close>: the analysis runs when the count is a multiple of 10.\<close>

definition check_analysis_trigger :: "db \<Rightarrow> py_error + db" where
  "check_analysis_trigger conn =
     (let count = length (readiness_assessments conn)
      in if count mod 10 = 0 then analyze_patterns conn else Inr conn)"

text \<open>
  \<^verbatim>\<open>log_patterns\<close>: the industry upsert, the blocking-factor loop, the high-performer
  upsert, commit, and the trigger. \<^verbatim>\<open>overall_score >= 75\<close> raises \<^verbatim>\<open>TypeError\<close> when the
  score is absent.
\<close>

definition log_patterns :: "(rat \<Rightarrow> rat) \<Rightarrow> assessment_data \<Rightarrow> db \<Rightarrow> py_error + db" where
  "log_patterns rnd assessment_data conn =
     (let industry = ad_industry assessment_data;
          overall_score = ad_overall_score assessment_data;
          category_scores = ad_category_scores assessment_data;
          p0 = readiness_patterns conn;
          p1 =
            (case overall_score of
               None \<Rightarrow> p0
             | Some s \<Rightarrow>
                 if truthy_str industry \<and> truthy_int s then
                   upsert_scored rnd ''industry_readiness'' (Industry industry) (of_int s) p0
                 else p0);
          p2 =
            (case category_scores of
               None \<Rightarrow> p1
             | Some cs \<Rightarrow>
                 fold (\<lambda>(category, score) p.
                         if score < 60 then
                           upsert_scored rnd ''blocking_factor'' (Category category)
                             (of_int score) p
                         else p)
                   cs p1)
      in case overall_score of
           None \<Rightarrow> Inl TypeError
         | Some s \<Rightarrow>
             let p3 =
                   (if 75 \<le> s then
                      upsert_freq ''high_performer'' (ScoreRange ''75+'' industry) p2
                    else p2)
             in check_analysis_trigger (conn\<lparr>readiness_patterns := p3\<rparr>))"

section \<open>The monthly report\<close>

record market_opportunity =
  opportunity :: string
  market_size :: nat
  avg_readiness :: rat
  potential_conversions :: rat

record report =
  total_assessments :: nat
  avg_readiness_score :: rat
  top_ready_industries :: "(string option \<times> rat \<times> nat) list"
  blocking_factors :: "(string option \<times> nat \<times> rat) list"
  high_ready_businesses :: "nat \<times> rat"
  market_opportunities :: "market_opportunity list"
  recommendations :: "string list"

text \<open>
  The loop over \<^verbatim>\<open>top_industries[:3]\<close>: a row with frequency at least 5 gives an
  opportunity; \<^verbatim>\<open>int(frequency) * 0.52\<close> is the exact product with \<open>52 / 100\<close>.
\<close>

fun build_opportunities :: "pattern_row list \<Rightarrow> py_error + market_opportunity list" where
  "build_opportunities [] = Inr []"
| "build_opportunities (industry # rest) =
     (if 5 \<le> frequency industry then
        (case avg_score industry of
           None \<Rightarrow> Inl TypeError
         | Some a \<Rightarrow>
             (case build_opportunities rest of
                Inl e \<Rightarrow> Inl e
              | Inr os \<Rightarrow>
                  Inr (\<lparr>opportunity = ''Target '' @ fmt_opt (industry_of (pattern_data industry)) @
                                       '' - high AI readiness'',
                        market_size = frequency industry,
                        avg_readiness = a,
                        potential_conversions = of_nat (frequency industry) * (52 / 100)\<rparr> # os)))
      else build_opportunities rest)"

text \<open>\<^verbatim>\<open>_generate_recommendations\<close>; \<open>blockers\<close> are the rows of the blocking-factor query.\<close>

definition generate_recommendations :: "market_opportunity list \<Rightarrow> pattern_row list \<Rightarrow> string list" where
  "generate_recommendations opportunities blockers =
     (case opportunities of
        [] \<Rightarrow> []
      | top_opp # _ \<Rightarrow>
          [''TARGET: '' @ opportunity top_opp @ '' - '' @
           str_int (py_int (potential_conversions top_opp)) @
           '' potential Nuru conversions'']) @
     (case blockers of
        [] \<Rightarrow> []
      | top_blocker # _ \<Rightarrow>
          [''BUILD: '' @ fmt_opt (category_of (pattern_data top_blocker)) @
           '' support template - '' @ str_nat (frequency top_blocker) @
           '' businesses need help here''])"

text \<open>The projection of a list of rows with \<^verbatim>\<open>float(row['avg_score'])\<close>.\<close>

fun float_rows :: "pattern_row list \<Rightarrow> py_error + (pattern_row \<times> rat) list" where
  "float_rows [] = Inr []"
| "float_rows (r # rs) =
     (case avg_score r of
        None \<Rightarrow> Inl TypeError
      | Some a \<Rightarrow> (case float_rows rs of Inl e \<Rightarrow> Inl e | Inr xs \<Rightarrow> Inr ((r, a) # xs)))"

text \<open>
  \<^verbatim>\<open>generate_monthly_report\<close>. The entries \<^verbatim>\<open>period\<close> (a constant) and \<^verbatim>\<open>insights\<close> (the
  rows of the last 30 days) are left out.
\<close>

definition generate_monthly_report :: "db \<Rightarrow> py_error + report" where
  "generate_monthly_report conn =
     (let scores = map a_overall_score (readiness_assessments conn);
          total_assessments = length scores;
          avg_score = (if scores = [] then 0 else of_int (sum_list scores) / of_nat (length scores));
          top_industries = query_top_industries conn;
          blocking_factors = query_blocking_factors conn;
          high = filter (\<lambda>s. 75 \<le> s) scores;
          high_ready =
            (length high, if high = [] then 0 else of_int (sum_list high) / of_nat (length high))
      in case build_opportunities (take 3 top_industries) of
           Inl e \<Rightarrow> Inl e
         | Inr opportunities \<Rightarrow>
             (case float_rows top_industries of
                Inl e \<Rightarrow> Inl e
              | Inr tops \<Rightarrow>
                  (case float_rows blocking_factors of
                     Inl e \<Rightarrow> Inl e
                   | Inr blocks \<Rightarrow>
                       Inr \<lparr>total_assessments = total_assessments,
                            avg_readiness_score = avg_score,
                            top_ready_industries =
                              map (\<lambda>(i, a). (industry_of (pattern_data i), a, frequency i)) tops,
                            blocking_factors =
                              map (\<lambda>(b, a). (category_of (pattern_data b), frequency b, a)) blocks,
                            high_ready_businesses = high_ready,
                            market_opportunities = opportunities,
                            recommendations =
                              generate_recommendations opportunities blocking_factors\<rparr>)))"

section \<open>Vocabulary of the properties\<close>

text \<open>The arithmetic mean of a list of integers, and of a list of rationals.\<close>

definition mean :: "int list \<Rightarrow> rat" where
  "mean vs = of_int (sum_list vs) / of_nat (length vs)"

definition mean_rat :: "rat list \<Rightarrow> rat" where
  "mean_rat ss = sum_list ss / of_nat (length ss)"

text \<open>An answers dict whose values are all \<^verbatim>\<open>int\<close>s.\<close>

definition int_answers :: "(string \<times> int) list \<Rightarrow> (string \<times> py_num) list" where
  "int_answers answers = map (\<lambda>(k, v). (k, PyInt v)) answers"

text \<open>
  The value of a number, and the numbers a request can carry: an \<^verbatim>\<open>int\<close> that a double
  holds exactly, or a double.
\<close>

fun num_value :: "py_num \<Rightarrow> rat" where
  "num_value (PyInt i) = of_int i"
| "num_value (PyFloat x) = x"

fun py_number :: "py_num \<Rightarrow> bool" where
  "py_number (PyInt i) = (\<bar>i\<bar> \<le> 2 ^ 53)"
| "py_number (PyFloat x) = (fl x = x)"

text \<open>The rows of the patterns table under a key.\<close>

definition rows_for :: "string \<Rightarrow> pattern_data \<Rightarrow> pattern_row list \<Rightarrow> pattern_row list" where
  "rows_for t d tbl = filter (has_key t d) tbl"

text \<open>A sequence of scored upserts, run in order against the table.\<close>

definition apply_upserts ::
  "(rat \<Rightarrow> rat) \<Rightarrow> (string \<times> pattern_data \<times> rat) list \<Rightarrow> pattern_row list \<Rightarrow> pattern_row list" where
  "apply_upserts rnd ops tbl = fold (\<lambda>(t, d, s). upsert_scored rnd t d s) ops tbl"

text \<open>The scores that a sequence of upserts contributes under a key.\<close>

definition scores_for :: "string \<Rightarrow> pattern_data \<Rightarrow> (string \<times> pattern_data \<times> rat) list \<Rightarrow> rat list" where
  "scores_for t d ops = map (\<lambda>(t', d', s). s) (filter (\<lambda>(t', d', s). t' = t \<and> d' = d) ops)"

text \<open>
  The position of a category in the fixed declaration order, and the order of weakness:
  a lower score first, and among equal scores the category declared earlier.
\<close>

definition decl_index :: "string \<Rightarrow> nat" where
  "decl_index c = length (takeWhile (\<lambda>x. x \<noteq> c) (map fst categories))"

definition weaker :: "(string \<times> int) list \<Rightarrow> string \<Rightarrow> string \<Rightarrow> bool" where
  "weaker cs c d =
     (py_get cs c 0 < py_get cs d 0 \<or>
      (py_get cs c 0 = py_get cs d 0 \<and> decl_index c < decl_index d))"

text \<open>An assessment row with a given overall score, for the examples.\<close>

definition example_assessment :: "int \<Rightarrow> assessment_row" where
  "example_assessment s =
     \<lparr>a_id = 0, a_company_name = ''Anonymous'', a_industry = None, a_email = None,
      a_answers = [(''1'', PyInt s)], a_overall_score = s, a_category_scores = [],
      a_readiness_level = level (readiness_tier s)\<rparr>"

definition example_db :: "int list \<Rightarrow> pattern_row list \<Rightarrow> db" where
  "example_db scores patterns =
     \<lparr>readiness_assessments = map example_assessment scores,
      readiness_patterns = patterns, readiness_insights = [],
      next_assessment_id = Suc (length scores)\<rparr>"

text \<open>
  The \<^verbatim>\<open>avg_score\<close> that the update formula leaves after the scores arrived in the given
  order (\<open>avg_latest\<close> takes them latest first): the first score as it is, then each
  rounded quotient \<open>(old_avg * old_freq + new) / (old_freq + 1)\<close>.
\<close>

fun avg_latest :: "(rat \<Rightarrow> rat) \<Rightarrow> rat list \<Rightarrow> rat" where
  "avg_latest rnd [] = 0"
| "avg_latest rnd (s # earlier) =
     (if earlier = [] then s
      else rnd ((avg_latest rnd earlier * of_nat (length earlier) + s) /
                of_nat (length earlier + 1)))"

definition avg_after :: "(rat \<Rightarrow> rat) \<Rightarrow> rat list \<Rightarrow> rat" where
  "avg_after rnd ss = avg_latest rnd (rev ss)"

section \<open>Rounding and evaluation lemmas\<close>

lemma py_round_nearest: "\<bar>of_int (py_round x) - x\<bar> \<le> 1 / 2"
proof -
  have "of_int \<lfloor>x\<rfloor> \<le> x" "x < of_int \<lfloor>x\<rfloor> + 1" by linarith+
  then show ?thesis
    by (auto simp: py_round_def Let_def abs_le_iff)
qed


lemma py_round_of_int: "py_round (of_int n) = n"
  by (simp add: py_round_def)

lemma nearest_int_unique:
  assumes "\<bar>of_int p - (of_int k :: rat)\<bar> \<le> 1 / 2"
  shows "p = k"
proof -
  have "\<bar>(of_int (p - k) :: rat)\<bar> < 1" using assms by simp
  then have "\<bar>p - k\<bar> < 1" by (metis of_int_abs of_int_less_iff of_int_1)
  then show ?thesis by simp
qed


lemma nearest_unique_or_tie:
  assumes a: "\<bar>of_int a - x\<bar> \<le> 1 / 2" and b: "\<bar>of_int b - x\<bar> \<le> 1 / 2"
    and nt: "x - of_int \<lfloor>x\<rfloor> \<noteq> (1 / 2 :: rat)"
  shows "a = b"
proof (rule ccontr)
  assume ne: "a \<noteq> b"
  have tie: "x - of_int \<lfloor>x\<rfloor> = 1 / 2"
    if lt: "c < d" and c: "\<bar>of_int c - x\<bar> \<le> 1 / 2" and d: "\<bar>of_int d - x\<bar> \<le> 1 / 2"
    for c d :: int
  proof -
    have "c + 1 \<le> d" using lt by simp
    then have "(of_int c :: rat) + 1 \<le> of_int d"
      by (metis of_int_le_iff of_int_add of_int_1)
    then have x: "x = of_int c + 1 / 2" using c d by linarith
    then have "\<lfloor>x\<rfloor> = c" by (simp add: floor_unique)
    then show ?thesis using x by simp
  qed
  from ne consider "a < b" | "b < a" by linarith
  then show False
    using tie[of a b] tie[of b a] a b nt by cases simp_all
qed


section \<open>Floating point\<close>

text \<open>The exponent is a lower bound, so rounding to a double has relative error at most \<open>2 ^ (- 53)\<close>.\<close>

lemma ilog2_le:
  assumes "0 < x"
  shows "2 powi (ilog2 x) \<le> x"
proof (cases "1 \<le> x")
  case True
  then have pos: "0 < \<lfloor>x\<rfloor>" by linarith
  have b: "2 ^ nat (bitlen \<lfloor>x\<rfloor> - 1) \<le> \<lfloor>x\<rfloor>"
    using bitlen_bounds[OF pos] by simp
  have "0 \<le> bitlen \<lfloor>x\<rfloor> - 1"
    using pos bitlen_eq_zero_iff[of "\<lfloor>x\<rfloor>"] bitlen_nonneg[of "\<lfloor>x\<rfloor>"] by linarith
  then have "(2::rat) powi (bitlen \<lfloor>x\<rfloor> - 1) = 2 ^ nat (bitlen \<lfloor>x\<rfloor> - 1)"
    by (simp add: power_int_def)
  also have "\<dots> = of_int (2 ^ nat (bitlen \<lfloor>x\<rfloor> - 1))" by simp
  also have "\<dots> \<le> of_int \<lfloor>x\<rfloor>" using b by (simp only: of_int_le_iff)
  also have "\<dots> \<le> x" by simp
  finally show ?thesis using True by (simp add: ilog2_def)
next
  case False
  then have lt: "x < 1" by simp
  let ?m = "\<lceil>1 / x\<rceil> - 1"
  have "1 < 1 / x" using assms lt by simp
  then have pos: "0 < ?m" by linarith
  have "?m < 2 ^ nat (bitlen ?m)" using bitlen_bounds[OF pos] by simp
  then have "\<lceil>1 / x\<rceil> \<le> 2 ^ nat (bitlen ?m)" by simp
  then have "(of_int \<lceil>1 / x\<rceil> :: rat) \<le> of_int (2 ^ nat (bitlen ?m))"
    by (simp only: of_int_le_iff)
  then have c: "(of_int \<lceil>1 / x\<rceil> :: rat) \<le> 2 ^ nat (bitlen ?m)" by simp
  have "1 / x \<le> of_int \<lceil>1 / x\<rceil>" by (rule le_of_int_ceiling)
  then have "1 / x \<le> 2 ^ nat (bitlen ?m)"
    using c by (rule order_trans)
  then have "1 / 2 ^ nat (bitlen ?m) \<le> x"
    using assms by (simp add: field_simps)
  moreover have "(2::rat) powi (- bitlen ?m) = 1 / 2 ^ nat (bitlen ?m)"
    using bitlen_nonneg[of ?m] by (simp add: power_int_def field_simps)
  ultimately show ?thesis using False by (simp add: ilog2_def)
qed

lemma fl_zero [simp]: "fl 0 = 0"
  by (simp add: fl_def)

lemma fl_error: "\<bar>fl x - x\<bar> \<le> \<bar>x\<bar> / 2 ^ 53"
proof (cases "x = 0")
  case True
  then show ?thesis by simp
next
  case False
  define u :: rat where "u = 2 powi (ilog2 \<bar>x\<bar> - 52)"
  have upos: "0 < u" by (simp add: u_def)
  have f: "fl x = of_int (py_round (x / u)) * u"
    using False by (simp add: fl_def u_def Let_def)
  have "u = 2 powi (ilog2 \<bar>x\<bar>) / 2 ^ 52"
    by (simp add: u_def power_int_diff)
  also have "\<dots> \<le> \<bar>x\<bar> / 2 ^ 52"
    using ilog2_le[of "\<bar>x\<bar>"] False by (simp add: divide_right_mono)
  finally have ule: "u \<le> \<bar>x\<bar> / 2 ^ 52" .
  have "fl x - x = (of_int (py_round (x / u)) - x / u) * u"
    using upos by (simp add: f left_diff_distrib)
  then have "\<bar>fl x - x\<bar> = \<bar>of_int (py_round (x / u)) - x / u\<bar> * u"
    using upos by (simp add: abs_mult)
  also have "\<dots> \<le> (1 / 2) * u"
    using py_round_nearest[of "x / u"] upos by (intro mult_right_mono) simp_all
  also have "\<dots> \<le> (1 / 2) * (\<bar>x\<bar> / 2 ^ 52)"
    using ule by simp
  finally show ?thesis by simp
qed

lemma fl_one [simp]: "fl 1 = 1"
  by code_simp

lemma fl_hundred: "fl 100 = 100"
  by code_simp

text \<open>
  Halves of integers below \<open>2 ^ 53\<close> are doubles. So rounding the correctly rounded quotient
  of two integers gives the same integer as rounding their exact quotient, as long as the
  dividend is below \<open>2 ^ 52\<close> in absolute value.
\<close>

lemma fl_half_int:
  assumes "\<bar>of_int j / 2 :: rat\<bar> < 2 ^ 52"
  shows "fl (of_int j / 2) = of_int j / 2"
proof (cases "j = 0")
  case True
  then show ?thesis by simp
next
  case False
  define x :: rat where "x = of_int j / 2"
  define e where "e = ilog2 \<bar>x\<bar>"
  have x0: "x \<noteq> 0" using False by (simp add: x_def)
  have "2 powi e \<le> \<bar>x\<bar>" unfolding e_def using x0 by (intro ilog2_le) simp
  also have "\<dots> < 2 ^ 52" using assms by (simp add: x_def)
  finally have "(2::rat) powi e < 2 powi 52" by simp
  then have "e < 52" by (rule power_int_le_imp_less_exp [rotated]) simp_all
  then have k: "0 \<le> 51 - e" by simp
  define u :: rat where "u = 2 powi (e - 52)"
  have upos: "0 < u" by (simp add: u_def)
  have "1 / u = 2 powi (52 - e)"
    by (simp add: u_def power_int_diff field_simps)
  also have "\<dots> = 2 * 2 powi (51 - e)"
    by (simp add: power_int_diff)
  also have "\<dots> = 2 * 2 ^ nat (51 - e)"
    using k by (simp add: power_int_def)
  finally have iu: "1 / u = 2 * 2 ^ nat (51 - e)" .
  have "x / u = x * (1 / u)" by simp
  also have "\<dots> = of_int j * 2 ^ nat (51 - e)" unfolding iu by (simp add: x_def)
  also have "\<dots> = of_int (j * 2 ^ nat (51 - e))" by simp
  finally have q: "x / u = of_int (j * 2 ^ nat (51 - e))" .
  have "fl x = of_int (py_round (x / u)) * u"
    using x0 by (simp add: fl_def u_def e_def Let_def)
  also have "\<dots> = (x / u) * u" unfolding q py_round_of_int by (rule refl)
  also have "\<dots> = x" using upos by simp
  finally show ?thesis by (simp add: x_def)
qed

lemma int_truediv_round:
  assumes n: "0 < n" and a: "\<bar>a\<bar> < 2 ^ 52"
  shows "py_round (fl (of_int a / of_nat n)) = py_round (of_int a / of_nat n)"
proof -
  define z :: rat where "z = of_int a / of_nat n"
  define m where "m = py_round z"
  have npos: "(0::rat) < of_nat n" using n by simp
  have n1: "(1::rat) \<le> of_nat n" using n by simp
  have za: "\<bar>z\<bar> \<le> \<bar>of_int a\<bar>"
  proof -
    have "\<bar>z\<bar> = \<bar>of_int a\<bar> / of_nat n" by (simp add: z_def)
    also have "\<dots> \<le> \<bar>of_int a\<bar> / 1" using n1 by (intro divide_left_mono) simp_all
    finally show ?thesis by simp
  qed
  have a': "\<bar>of_int a :: rat\<bar> < 2 ^ 52"
  proof -
    have "(of_int \<bar>a\<bar> :: rat) < of_int (2 ^ 52)" using a by (simp only: of_int_less_iff)
    then show ?thesis by simp
  qed
  have near: "\<bar>of_int m - z\<bar> \<le> 1 / 2" unfolding m_def by (rule py_round_nearest)
  have mz: "of_int m - z = of_int (m * int n - a) / of_nat n"
    using npos by (simp add: z_def field_simps)
  show ?thesis
  proof (cases "2 * \<bar>m * int n - a\<bar> = int n")
    case True
    have "\<exists>j. z = of_int j / 2"
    proof -
      have "2 * \<bar>of_int (m * int n - a) :: rat\<bar> = of_nat n"
      proof -
        have "(of_int (2 * \<bar>m * int n - a\<bar>) :: rat) = of_int (int n)" using True by simp
        then show ?thesis by simp
      qed
      then have "2 * \<bar>of_int m - z\<bar> = 1"
        unfolding mz using npos by (simp add: abs_divide)
      then have "of_int m - z = 1 / 2 \<or> of_int m - z = - 1 / 2" by (auto simp: abs_if split: if_splits)
      then have "z = of_int (2 * m - 1) / 2 \<or> z = of_int (2 * m + 1) / 2"
        by (auto simp: field_simps)
      then show ?thesis by blast
    qed
    then obtain j where j: "z = of_int j / 2" by blast
    have "\<bar>of_int j / 2 :: rat\<bar> < 2 ^ 52" using za a' unfolding j by simp
    then have "fl z = z" unfolding j by (rule fl_half_int)
    then show ?thesis by (simp add: z_def)
  next
    case False
    have "2 * \<bar>of_int (m * int n - a) :: rat\<bar> \<le> of_nat n"
      using near npos unfolding mz by (simp add: abs_divide field_simps)
    then have "(of_int (2 * \<bar>m * int n - a\<bar>) :: rat) \<le> of_int (int n)" by simp
    then have "2 * \<bar>m * int n - a\<bar> \<le> int n" by (simp only: of_int_le_iff)
    then have "2 * \<bar>m * int n - a\<bar> \<le> int n - 1" using False by simp
    then have "(of_int (2 * \<bar>m * int n - a\<bar>) :: rat) \<le> of_int (int n - 1)"
      by (simp only: of_int_le_iff)
    then have i: "2 * \<bar>of_int (m * int n - a) :: rat\<bar> \<le> of_nat n - 1" by simp
    have d: "\<bar>of_int m - z\<bar> \<le> 1 / 2 - 1 / (2 * of_nat n)"
    proof -
      have "\<bar>of_int m - z\<bar> = \<bar>of_int (m * int n - a) :: rat\<bar> / of_nat n"
        unfolding mz using npos by (simp add: abs_divide)
      also have "\<dots> \<le> ((of_nat n - 1) / 2) / of_nat n"
        using i npos by (intro divide_right_mono) simp_all
      also have "\<dots> = 1 / 2 - 1 / (2 * of_nat n)"
        using npos by (simp add: field_simps)
      finally show ?thesis .
    qed
    have "\<bar>fl z - z\<bar> \<le> \<bar>z\<bar> / 2 ^ 53" by (rule fl_error)
    also have "\<dots> = \<bar>of_int a\<bar> / 2 ^ 53 / of_nat n" by (simp add: z_def)
    also have "\<dots> < 2 ^ 52 / 2 ^ 53 / of_nat n"
      using a' npos by (intro divide_strict_right_mono) simp_all
    also have "\<dots> = 1 / (2 * of_nat n)" by simp
    finally have f: "\<bar>fl z - z\<bar> < 1 / (2 * of_nat n)" .
    have "\<bar>of_int m - fl z\<bar> < 1 / 2" using d f by linarith
    moreover have "\<bar>of_int (py_round (fl z)) - fl z\<bar> \<le> 1 / 2" by (rule py_round_nearest)
    ultimately have "\<bar>of_int (py_round (fl z)) - (of_int m :: rat)\<bar> < 1" by linarith
    then have "\<bar>(of_int (py_round (fl z) - m) :: rat)\<bar> < 1" by simp
    then have "\<bar>py_round (fl z) - m\<bar> < 1" by (metis of_int_abs of_int_less_iff of_int_1)
    then have "py_round (fl z) = m" by simp
    then show ?thesis by (simp add: z_def m_def)
  qed
qed

section \<open>Evaluation lemmas\<close>

lemma string_of_digit [simp]:
  "str_nat 1 = ''1''" "str_nat 2 = ''2''" "str_nat 3 = ''3''"
  "str_nat 4 = ''4''" "str_nat 5 = ''5''" "str_nat 6 = ''6''"
  "str_nat 7 = ''7''" "str_nat (Suc 0) = ''1''"
  by (simp_all add: str_nat.simps digit_def)




lemma py_sum_ints_from:
  "fold (\<lambda>v acc. py_add acc v) (map PyInt vs) (PyInt a) = PyInt (a + sum_list vs)"
  by (induction vs arbitrary: a) (simp_all add: add.assoc)

lemma py_sum_ints: "py_sum (map PyInt vs) = PyInt (sum_list vs)"
  by (simp add: py_sum_def py_sum_ints_from)

lemma snd_int_answers: "map snd (int_answers answers) = map PyInt (map snd answers)"
  by (induction answers) (auto simp: int_answers_def)

lemma calc_overall_score_ints:
  "calc_overall_score (int_answers answers) = py_round (mean (map snd answers))"
proof -
  have "py_sum (map snd (int_answers answers)) = PyInt (sum_list (map snd answers))"
    by (simp only: snd_int_answers py_sum_ints)
  moreover have "length (map snd (int_answers answers)) = length (map snd answers)"
    by (simp add: int_answers_def)
  ultimately show ?thesis
    by (simp add: calc_overall_score_def Let_def mean_def)
qed

text \<open>The score of a category with one question is the rounded value of its answer.\<close>

lemma single_question_score:
  assumes "py_number v"
  shows "py_round (py_truediv (py_sum [v]) (Suc 0)) = py_round (num_value v)"
proof (cases v)
  case (PyInt i)
  then show ?thesis by (simp add: py_sum_def)
next
  case (PyFloat x)
  then have "fl x = x" using assms by simp
  then show ?thesis using PyFloat by (simp add: py_sum_def)
qed

lemma py_number_py_get:
  assumes "\<forall>v\<in>set (map snd answers). py_number v"
  shows "py_number (py_get answers k (PyInt 0))"
proof (cases "map_of answers k")
  case None
  then show ?thesis by (simp add: py_get_def)
next
  case (Some v)
  then have "v \<in> set (map snd answers)"
    by (metis map_of_SomeD set_zip_rightD zip_map_fst_snd)
  then show ?thesis using assms Some by (auto simp: py_get_def)
qed

section \<open>The scoring module\<close>

text \<open>A request with a non-empty answers dict is answered with status 200 and this body.\<close>

lemma assess_readiness_ok:
  assumes "req_answers data = Some answers" and "answers \<noteq> []"
  shows "\<exists>conn'. assess_readiness rnd data conn =
           (Http200
             \<lparr>assessment_id = next_assessment_id conn,
              overall_score = calc_overall_score answers,
              category_scores = calc_category_scores answers,
              readiness_level = level (readiness_tier (calc_overall_score answers)),
              resp_description = description (readiness_tier (calc_overall_score answers)),
              resp_recommendation = recommendation (readiness_tier (calc_overall_score answers)),
              resp_next_steps = next_steps (readiness_tier (calc_overall_score answers)),
              weak_areas = map fst (calc_weak_categories (calc_category_scores answers))\<rparr>, conn')"
  using assms by (simp add: assess_readiness_def Let_def)


lemma level_readiness_tier:
  "level (readiness_tier s) =
     (if 80 \<le> s then ''Highly Ready for AI''
      else if 60 \<le> s then ''Ready with Some Preparation''
      else if 40 \<le> s then ''Moderate Readiness''
      else ''Early Stage'')"
  by (simp add: readiness_tier_def)


lemma calc_category_scores_eq:
  "calc_category_scores answers =
     [(''Data Infrastructure'',
         py_round (py_truediv (py_sum [py_get answers ''1'' (PyInt 0)]) (Suc 0))),
      (''Process Maturity'',
         py_round (py_truediv (py_sum [py_get answers ''2'' (PyInt 0)]) (Suc 0))),
      (''Team Readiness'',
         py_round (py_truediv (py_sum [py_get answers ''3'' (PyInt 0)]) (Suc 0))),
      (''Financial Capacity'',
         py_round (py_truediv (py_sum [py_get answers ''4'' (PyInt 0)]) (Suc 0))),
      (''Problem Definition'',
         py_round (py_truediv (py_sum [py_get answers ''5'' (PyInt 0)]) (Suc 0))),
      (''Technical Foundation'',
         py_round (py_truediv (py_sum [py_get answers ''6'' (PyInt 0)]) (Suc 0))),
      (''Decision Authority'',
         py_round (py_truediv (py_sum [py_get answers ''7'' (PyInt 0)]) (Suc 0)))]"
  by (simp add: calc_category_scores_def categories_def)

text \<open>The category scores of a dict of \<^verbatim>\<open>int\<close>s are the answers themselves.\<close>

lemma py_get_int_answers:
  "py_get (int_answers answers) k (PyInt 0) = PyInt (py_get answers k 0)"
  by (induction answers) (auto simp: int_answers_def py_get_def)

lemma calc_category_scores_ints:
  "calc_category_scores (int_answers answers) =
     [(''Data Infrastructure'', py_get answers ''1'' 0),
      (''Process Maturity'', py_get answers ''2'' 0),
      (''Team Readiness'', py_get answers ''3'' 0),
      (''Financial Capacity'', py_get answers ''4'' 0),
      (''Problem Definition'', py_get answers ''5'' 0),
      (''Technical Foundation'', py_get answers ''6'' 0),
      (''Decision Authority'', py_get answers ''7'' 0)]"
  by (simp add: calc_category_scores_eq py_get_int_answers py_sum_def py_round_of_int)



text \<open>
  Claim C2. Tier selection partitions the integers: a score of at least 80 is
  ``Highly Ready for AI'', otherwise at least 60 is ``Ready with Some Preparation'',
  otherwise at least 40 is ``Moderate Readiness'', otherwise ``Early Stage''; exactly one
  of the four tiers applies to any integer score.
\<close>

theorem tier_selection_partition:
  "(level (readiness_tier s) = ''Highly Ready for AI'' \<longleftrightarrow> 80 \<le> s) \<and>
   (level (readiness_tier s) = ''Ready with Some Preparation'' \<longleftrightarrow> 60 \<le> s \<and> s < 80) \<and>
   (level (readiness_tier s) = ''Moderate Readiness'' \<longleftrightarrow> 40 \<le> s \<and> s < 60) \<and>
   (level (readiness_tier s) = ''Early Stage'' \<longleftrightarrow> s < 40) \<and>
   length (filter (\<lambda>t. level (readiness_tier s) = t)
             [''Highly Ready for AI'', ''Ready with Some Preparation'',
              ''Moderate Readiness'', ''Early Stage'']) = 1"
proof -
  consider "80 \<le> s" | "60 \<le> s" "s < 80" | "40 \<le> s" "s < 60" | "s < 40"
    by linarith
  then show ?thesis
  proof cases
    case 1
    then show ?thesis by (simp add: level_readiness_tier)
  next
    case 2
    then show ?thesis by (simp add: level_readiness_tier)
  next
    case 3
    then show ?thesis by (simp add: level_readiness_tier)
  next
    case 4
    then show ?thesis by (simp add: level_readiness_tier)
  qed
qed


text \<open>
  Claim C7. The category scores of an assessment give each of the seven categories the
  rounded value (Python's \<open>round\<close>) of its one question, 0 when that question has no
  answer. For the answers \<open>{"1": 10, "2": 20, "3": 15}\<close> the four unanswered categories
  score 0, the overall score is 15 and the tier is ``Early Stage''.
\<close>

theorem category_scores_single_question:
  assumes "req_answers data = Some answers" and "answers \<noteq> []"
    and "\<forall>v\<in>set (map snd answers). py_number v"
  shows "\<exists>r conn'. assess_readiness rnd data conn = (Http200 r, conn') \<and>
           category_scores r =
             [(''Data Infrastructure'', py_round (num_value (py_get answers ''1'' (PyInt 0)))),
              (''Process Maturity'', py_round (num_value (py_get answers ''2'' (PyInt 0)))),
              (''Team Readiness'', py_round (num_value (py_get answers ''3'' (PyInt 0)))),
              (''Financial Capacity'', py_round (num_value (py_get answers ''4'' (PyInt 0)))),
              (''Problem Definition'', py_round (num_value (py_get answers ''5'' (PyInt 0)))),
              (''Technical Foundation'', py_round (num_value (py_get answers ''6'' (PyInt 0)))),
              (''Decision Authority'', py_round (num_value (py_get answers ''7'' (PyInt 0))))] \<and>
           (answers = int_answers [(''1'', 10), (''2'', 20), (''3'', 15)] \<longrightarrow>
              category_scores r =
                [(''Data Infrastructure'', 10), (''Process Maturity'', 20),
                 (''Team Readiness'', 15), (''Financial Capacity'', 0),
                 (''Problem Definition'', 0), (''Technical Foundation'', 0),
                 (''Decision Authority'', 0)] \<and>
              overall_score r = 15 \<and> readiness_level r = ''Early Stage'')"
proof -
  obtain conn' r where r: "assess_readiness rnd data conn = (Http200 r, conn')"
    and o: "overall_score r = calc_overall_score answers"
    and c: "category_scores r = calc_category_scores answers"
    and l: "readiness_level r = level (readiness_tier (calc_overall_score answers))"
    using assess_readiness_ok[OF assms(1,2), of rnd conn] by auto
  have one: "py_round (py_truediv (py_sum [py_get answers k (PyInt 0)]) (Suc 0)) =
             py_round (num_value (py_get answers k (PyInt 0)))" for k
    using py_number_py_get[OF assms(3)] by (rule single_question_score)
  have general: "category_scores r =
             [(''Data Infrastructure'', py_round (num_value (py_get answers ''1'' (PyInt 0)))),
              (''Process Maturity'', py_round (num_value (py_get answers ''2'' (PyInt 0)))),
              (''Team Readiness'', py_round (num_value (py_get answers ''3'' (PyInt 0)))),
              (''Financial Capacity'', py_round (num_value (py_get answers ''4'' (PyInt 0)))),
              (''Problem Definition'', py_round (num_value (py_get answers ''5'' (PyInt 0)))),
              (''Technical Foundation'', py_round (num_value (py_get answers ''6'' (PyInt 0)))),
              (''Decision Authority'', py_round (num_value (py_get answers ''7'' (PyInt 0))))]"
    unfolding c calc_category_scores_eq one by (rule refl)
  have s: "py_round (mean [10, 20, 15]) = 15"
    unfolding mean_def by code_simp
  have g: "py_get [(''1'', 10), (''2'', 20), (''3'', 15::int)] ''1'' 0 = 10"
      "py_get [(''1'', 10), (''2'', 20), (''3'', 15::int)] ''2'' 0 = 20"
      "py_get [(''1'', 10), (''2'', 20), (''3'', 15::int)] ''3'' 0 = 15"
      "py_get [(''1'', 10), (''2'', 20), (''3'', 15::int)] ''4'' 0 = 0"
      "py_get [(''1'', 10), (''2'', 20), (''3'', 15::int)] ''5'' 0 = 0"
      "py_get [(''1'', 10), (''2'', 20), (''3'', 15::int)] ''6'' 0 = 0"
      "py_get [(''1'', 10), (''2'', 20), (''3'', 15::int)] ''7'' 0 = 0"
    by (simp_all add: py_get_def)
  have scenario: "answers = int_answers [(''1'', 10), (''2'', 20), (''3'', 15)] \<longrightarrow>
              category_scores r =
                [(''Data Infrastructure'', 10), (''Process Maturity'', 20),
                 (''Team Readiness'', 15), (''Financial Capacity'', 0),
                 (''Problem Definition'', 0), (''Technical Foundation'', 0),
                 (''Decision Authority'', 0)] \<and>
              overall_score r = 15 \<and> readiness_level r = ''Early Stage''"
    using o c l
    by (simp add: calc_category_scores_ints calc_overall_score_ints g s level_readiness_tier)
  show ?thesis using r general scenario by blast
qed

text \<open>An instance with floats: 72.5 and 73.5 are ties and go to the even neighbour.\<close>

theorem category_scores_single_question_witness:
  "\<exists>r conn'.
     assess_readiness id
       \<lparr>req_company_name = None, req_industry = None, req_email = None,
        req_answers = Some [(''1'', PyFloat (145 / 2)), (''2'', PyFloat (147 / 2)),
                            (''3'', PyFloat (41 / 4)), (''4'', PyFloat (399 / 4)),
                            (''5'', PyInt 40)]\<rparr>
       \<lparr>readiness_assessments = [], readiness_patterns = [], readiness_insights = [],
        next_assessment_id = 1\<rparr> = (Http200 r, conn') \<and>
     category_scores r =
       [(''Data Infrastructure'', 72), (''Process Maturity'', 74),
        (''Team Readiness'', 10), (''Financial Capacity'', 100),
        (''Problem Definition'', 40), (''Technical Foundation'', 0),
        (''Decision Authority'', 0)]"
proof -
  let ?a = "[(''1'', PyFloat (145 / 2)), (''2'', PyFloat (147 / 2)),
             (''3'', PyFloat (41 / 4)), (''4'', PyFloat (399 / 4)), (''5'', PyInt 40)]"
  have d: "fl (145 / 2) = 145 / 2" "fl (147 / 2) = 147 / 2" "fl (41 / 4) = 41 / 4"
      "fl (399 / 4) = 399 / 4"
    by code_simp+
  have v: "py_round (145 / 2) = 72" "py_round (147 / 2) = 74" "py_round (41 / 4) = 10"
      "py_round (399 / 4) = 100" "py_round 40 = 40" "py_round 0 = 0"
    by code_simp+
  show ?thesis
    using category_scores_single_question[of
        "\<lparr>req_company_name = None, req_industry = None, req_email = None,
          req_answers = Some ?a\<rparr>" ?a id
        "\<lparr>readiness_assessments = [], readiness_patterns = [], readiness_insights = [],
          next_assessment_id = 1\<rparr>"]
    by (auto simp: d v py_get_def)
qed

section \<open>The weakest categories\<close>

text \<open>Insertion into a list sorted by key keeps any order that the key order refines.\<close>

lemma insort_key_sorted_wrt:
  assumes "sorted (map f ys)" and "sorted_wrt P ys"
    and "\<forall>y\<in>set ys. (f y < f x \<longrightarrow> P y x) \<and> (f x \<le> f y \<longrightarrow> P x y)"
  shows "sorted_wrt P (insort_key f x ys)"
  using assms
proof (induction ys)
  case Nil
  then show ?case by simp
next
  case (Cons y ys)
  show ?case
  proof (cases "f x \<le> f y")
    case True
    have "\<forall>z\<in>set (y # ys). P x z"
    proof
      fix z assume z: "z \<in> set (y # ys)"
      then have "f y \<le> f z" using Cons.prems(1) by auto
      then have "f x \<le> f z" using True by simp
      then show "P x z" using Cons.prems(3) z by blast
    qed
    then show ?thesis using True Cons.prems(2) by simp
  next
    case False
    then have lt: "f y < f x" by simp
    have ih: "sorted_wrt P (insort_key f x ys)"
      using Cons.IH Cons.prems by simp
    have "P y x" using lt Cons.prems(3) by simp
    moreover have "\<forall>z\<in>set ys. P y z" using Cons.prems(2) by simp
    ultimately show ?thesis using False ih by (simp add: set_insort_key)
  qed
qed

lemma sort_key_stable_order:
  assumes "distinct xs"
  shows "sorted_wrt
           (\<lambda>a b. f a < f b \<or>
                   (f a = f b \<and>
                    length (takeWhile (\<lambda>z. z \<noteq> a) xs) < length (takeWhile (\<lambda>z. z \<noteq> b) xs)))
           (sort_key f xs)"
  using assms
proof (induction xs)
  case Nil
  then show ?case by simp
next
  case (Cons x xs)
  let ?R = "\<lambda>zs a b. f a < f b \<or>
              (f a = f b \<and>
               length (takeWhile (\<lambda>z. z \<noteq> a) zs) < length (takeWhile (\<lambda>z. z \<noteq> b) zs))"
  have x: "x \<notin> set xs" and d: "distinct xs" using Cons.prems by simp_all
  have ih: "sorted_wrt (?R xs) (sort_key f xs)" using Cons.IH d by simp
  have lift: "sorted_wrt (?R (x # xs)) (sort_key f xs)"
  proof (rule sorted_wrt_mono_rel[OF _ ih])
    fix a b
    assume "a \<in> set (sort_key f xs)" "b \<in> set (sort_key f xs)" "?R xs a b"
    then show "?R (x # xs) a b" using x by auto
  qed
  have new: "\<forall>y\<in>set (sort_key f xs).
               (f y < f x \<longrightarrow> ?R (x # xs) y x) \<and> (f x \<le> f y \<longrightarrow> ?R (x # xs) x y)"
    using x by auto
  have "sorted_wrt (?R (x # xs)) (insort_key f x (sort_key f xs))"
    by (rule insort_key_sorted_wrt[OF _ lift new]) simp
  then show ?case by simp
qed

lemma takeWhile_pairs:
  assumes "distinct (map fst cs)" and "(c, v) \<in> set cs"
  shows "length (takeWhile (\<lambda>z. z \<noteq> (c, v)) cs) = length (takeWhile (\<lambda>x. x \<noteq> c) (map fst cs))"
  using assms
proof (induction cs)
  case Nil
  then show ?case by simp
next
  case (Cons p cs)
  then show ?case by (cases p) (auto simp: rev_image_eqI)
qed

lemma py_get_distinct:
  assumes "distinct (map fst cs)" and "(c, v) \<in> set cs"
  shows "py_get cs c d = v"
  using assms by (simp add: py_get_def)

lemma weak_categories_order:
  assumes dist: "distinct (map fst cs)"
  defines "R \<equiv> \<lambda>c d. py_get cs c 0 < py_get cs d 0 \<or>
                   (py_get cs c 0 = py_get cs d 0 \<and>
                    length (takeWhile (\<lambda>x. x \<noteq> c) (map fst cs)) <
                    length (takeWhile (\<lambda>x. x \<noteq> d) (map fst cs)))"
  shows "length (calc_weak_categories cs) = min 3 (length cs)"
    and "distinct (map fst (calc_weak_categories cs))"
    and "set (calc_weak_categories cs) \<subseteq> set cs"
    and "sorted_wrt R (map fst (calc_weak_categories cs))"
    and "\<forall>c\<in>set (map fst (calc_weak_categories cs)).
           \<forall>d\<in>set (map fst cs) - set (map fst (calc_weak_categories cs)). R c d"
proof -
  let ?ys = "sort_key snd cs"
  let ?w = "take 3 ?ys" and ?rest = "drop 3 ?ys"
  have w: "calc_weak_categories cs = ?w" by (simp add: calc_weak_categories_def)
  have dcs: "distinct cs" using dist by (simp add: distinct_map)
  have dys: "distinct (map fst ?ys)"
    using dist by (metis distinct_map distinct_sort set_sort)
  show "length (calc_weak_categories cs) = min 3 (length cs)"
    by (simp add: w min.commute)
  show "distinct (map fst (calc_weak_categories cs))"
    unfolding w using dys by (metis distinct_take take_map)
  show "set (calc_weak_categories cs) \<subseteq> set cs"
    unfolding w using set_take_subset[of 3 ?ys] by simp
  have pairs: "sorted_wrt
           (\<lambda>a b. snd a < snd b \<or>
                   (snd a = snd b \<and>
                    length (takeWhile (\<lambda>z. z \<noteq> a) cs) < length (takeWhile (\<lambda>z. z \<noteq> b) cs)))
           ?ys"
    using dcs by (rule sort_key_stable_order)
  have names: "sorted_wrt (\<lambda>a b. R (fst a) (fst b)) ?ys"
  proof (rule sorted_wrt_mono_rel[OF _ pairs])
    fix a b
    assume a: "a \<in> set ?ys" and b: "b \<in> set ?ys"
      and ab: "snd a < snd b \<or>
                   (snd a = snd b \<and>
                    length (takeWhile (\<lambda>z. z \<noteq> a) cs) < length (takeWhile (\<lambda>z. z \<noteq> b) cs))"
    have a': "(fst a, snd a) \<in> set cs" and b': "(fst b, snd b) \<in> set cs" using a b by simp_all
    have "py_get cs (fst a) 0 = snd a" "py_get cs (fst b) 0 = snd b"
      using py_get_distinct[OF dist a'] py_get_distinct[OF dist b'] by simp_all
    moreover have "length (takeWhile (\<lambda>z. z \<noteq> a) cs) =
                   length (takeWhile (\<lambda>x. x \<noteq> fst a) (map fst cs))"
      using takeWhile_pairs[OF dist a'] by simp
    moreover have "length (takeWhile (\<lambda>z. z \<noteq> b) cs) =
                   length (takeWhile (\<lambda>x. x \<noteq> fst b) (map fst cs))"
      using takeWhile_pairs[OF dist b'] by simp
    ultimately show "R (fst a) (fst b)" using ab unfolding R_def by simp
  qed
  have "sorted_wrt R (map fst (?w @ ?rest))"
    using names by (simp add: sorted_wrt_map)
  then have split: "sorted_wrt R (map fst ?w)"
      "\<forall>c\<in>set (map fst ?w). \<forall>d\<in>set (map fst ?rest). R c d"
    unfolding map_append sorted_wrt_append by blast+
  show "sorted_wrt R (map fst (calc_weak_categories cs))"
    unfolding w by (rule split(1))
  have "set (map fst cs) = set (map fst (?w @ ?rest))" by simp
  then have "set (map fst cs) - set (map fst ?w) \<subseteq> set (map fst ?rest)"
    unfolding map_append set_append by blast
  then show "\<forall>c\<in>set (map fst (calc_weak_categories cs)).
           \<forall>d\<in>set (map fst cs) - set (map fst (calc_weak_categories cs)). R c d"
    unfolding w using split(2) by blast
qed

lemma category_names:
  "map fst (calc_category_scores answers) = map fst categories"
  by (simp add: calc_category_scores_eq categories_def)

lemma distinct_category_names: "distinct (map fst categories)"
  by (simp add: categories_def)

text \<open>
  Claim C6. The response's \<open>weak_areas\<close> has length \<open>min 3 (number of categories)\<close>,
  its categories are in ascending order of score, ties in declaration order (the order
  \<open>weaker\<close>), and every category left out is weaker than none of them: the list is the
  three lowest-scoring categories.
\<close>

theorem weak_areas_three_lowest:
  assumes "req_answers data = Some answers" and "answers \<noteq> []"
  shows "\<exists>r conn'. assess_readiness rnd data conn = (Http200 r, conn') \<and>
           length (weak_areas r) = min 3 (length categories) \<and>
           distinct (weak_areas r) \<and>
           set (weak_areas r) \<subseteq> set (map fst categories) \<and>
           sorted (map (\<lambda>c. py_get (category_scores r) c 0) (weak_areas r)) \<and>
           sorted_wrt (weaker (category_scores r)) (weak_areas r) \<and>
           (\<forall>c\<in>set (weak_areas r). \<forall>d\<in>set (map fst categories) - set (weak_areas r).
              weaker (category_scores r) c d)"
proof -
  let ?cs = "calc_category_scores answers"
  let ?w = "map fst (calc_weak_categories ?cs)"
  obtain conn' r where r: "assess_readiness rnd data conn = (Http200 r, conn')"
    and c: "category_scores r = ?cs"
    and w: "weak_areas r = ?w"
    using assess_readiness_ok[OF assms, of rnd conn] by auto
  have dist: "distinct (map fst ?cs)"
    by (simp add: category_names distinct_category_names)
  have R: "weaker ?cs = (\<lambda>c d. py_get ?cs c 0 < py_get ?cs d 0 \<or>
                   (py_get ?cs c 0 = py_get ?cs d 0 \<and>
                    length (takeWhile (\<lambda>x. x \<noteq> c) (map fst ?cs)) <
                    length (takeWhile (\<lambda>x. x \<noteq> d) (map fst ?cs))))"
    by (intro ext) (simp add: weaker_def decl_index_def category_names)
  have len: "length ?w = min 3 (length categories)"
    using weak_categories_order(1)[OF dist] category_names[of answers]
    by (metis length_map)
  have d: "distinct ?w" by (rule weak_categories_order(2)[OF dist])
  have sub: "set ?w \<subseteq> set (map fst categories)"
    using weak_categories_order(3)[OF dist] category_names[of answers]
    by (metis image_mono set_map)
  have sw: "sorted_wrt (weaker ?cs) ?w"
    unfolding R by (rule weak_categories_order(4)[OF dist])
  have out: "\<forall>c\<in>set ?w. \<forall>d\<in>set (map fst categories) - set ?w. weaker ?cs c d"
    unfolding R using weak_categories_order(5)[OF dist] by (simp only: category_names)
  have "sorted_wrt (\<lambda>c d. py_get ?cs c 0 \<le> py_get ?cs d 0) ?w"
    by (rule sorted_wrt_mono_rel[OF _ sw]) (auto simp: weaker_def)
  then have so: "sorted (map (\<lambda>c. py_get ?cs c 0) ?w)"
    by (simp only: sorted_map)
  have "assess_readiness rnd data conn = (Http200 r, conn') \<and>
           length (weak_areas r) = min 3 (length categories) \<and>
           distinct (weak_areas r) \<and>
           set (weak_areas r) \<subseteq> set (map fst categories) \<and>
           sorted (map (\<lambda>c. py_get (category_scores r) c 0) (weak_areas r)) \<and>
           sorted_wrt (weaker (category_scores r)) (weak_areas r) \<and>
           (\<forall>c\<in>set (weak_areas r). \<forall>d\<in>set (map fst categories) - set (weak_areas r).
              weaker (category_scores r) c d)"
    unfolding c w using r len d sub so sw out by (intro conjI)
  then show ?thesis by (intro exI)
qed

theorem weak_areas_three_lowest_witness:
  "\<exists>r conn'.
     assess_readiness id
       \<lparr>req_company_name = None, req_industry = None, req_email = None,
        req_answers = Some (int_answers [(''1'', 50), (''2'', 20), (''3'', 20), (''4'', 70),
                                         (''5'', 20), (''6'', 10), (''7'', 90)])\<rparr>
       \<lparr>readiness_assessments = [], readiness_patterns = [], readiness_insights = [],
        next_assessment_id = 1\<rparr> = (Http200 r, conn') \<and>
     weak_areas r = [''Technical Foundation'', ''Process Maturity'', ''Team Readiness''] \<and>
     length (weak_areas r) = min 3 (length categories) \<and>
     sorted_wrt (weaker (category_scores r)) (weak_areas r)"
proof -
  let ?a = "int_answers [(''1'', 50), (''2'', 20), (''3'', 20), (''4'', 70), (''5'', 20),
                         (''6'', 10), (''7'', 90)]"
  let ?d = "\<lparr>req_company_name = None, req_industry = None, req_email = None,
             req_answers = Some ?a\<rparr>"
  let ?c = "\<lparr>readiness_assessments = [], readiness_patterns = [], readiness_insights = [],
             next_assessment_id = 1\<rparr>"
  have ne: "?a \<noteq> []" by (simp add: int_answers_def)
  have e: "map fst (calc_weak_categories (calc_category_scores ?a)) =
             [''Technical Foundation'', ''Process Maturity'', ''Team Readiness'']"
    by (simp add: calc_category_scores_ints calc_weak_categories_def py_get_def)
  obtain r conn' where r: "assess_readiness id ?d ?c = (Http200 r, conn')"
    and p: "length (weak_areas r) = min 3 (length categories)"
       "sorted_wrt (weaker (category_scores r)) (weak_areas r)"
    using weak_areas_three_lowest[of ?d ?a id ?c] ne by auto
  have "weak_areas r = map fst (calc_weak_categories (calc_category_scores ?a))"
    using r assess_readiness_ok[of ?d ?a id ?c] ne by auto
  then show ?thesis using r p e by auto
qed

section \<open>The percentile\<close>

text \<open>The two float operations of the percentile stay within \<open>2 ^ (- 44)\<close> of the exact value.\<close>

lemma percentile_float_error:
  fixes l t :: nat
  assumes "l \<le> t" and "0 < t"
  shows "\<bar>fl (fl (of_nat l / of_nat t) * 100) - 100 * of_nat l / of_nat t\<bar> \<le> 1 / 2 ^ 44"
proof -
  define q :: rat where "q = of_nat l / of_nat t"
  have q01: "0 \<le> q" "q \<le> 1" using assms by (simp_all add: q_def)
  have e1: "\<bar>fl q - q\<bar> \<le> 1 / 2 ^ 53"
  proof -
    have "\<bar>fl q - q\<bar> \<le> \<bar>q\<bar> / 2 ^ 53" by (rule fl_error)
    also have "\<dots> \<le> 1 / 2 ^ 53" using q01 by (simp add: divide_right_mono)
    finally show ?thesis .
  qed
  have small: "(1::rat) / 2 ^ 53 \<le> 1" by simp
  have "\<bar>fl q - q\<bar> \<le> 1" using e1 small by (rule order_trans)
  then have "\<bar>fl q\<bar> \<le> 2" using q01 by linarith
  then have q2: "\<bar>fl q * 100\<bar> \<le> 200" by (simp add: abs_mult)
  have e2: "\<bar>fl (fl q * 100) - fl q * 100\<bar> \<le> 200 / 2 ^ 53"
  proof -
    have "\<bar>fl (fl q * 100) - fl q * 100\<bar> \<le> \<bar>fl q * 100\<bar> / 2 ^ 53" by (rule fl_error)
    also have "\<dots> \<le> 200 / 2 ^ 53" using q2 by (simp add: divide_right_mono)
    finally show ?thesis .
  qed
  have "\<bar>fl (fl q * 100) - 100 * q\<bar> \<le> 200 / 2 ^ 53 + 100 * (1 / 2 ^ 53)"
    using e1 e2 by linarith
  also have "\<dots> \<le> 1 / 2 ^ 44" by simp
  finally show ?thesis by (simp add: q_def)
qed

lemma percentile_float_nearest:
  fixes l t :: nat
  assumes "l \<le> t" and "0 < t" and "t < 2 ^ 40"
  shows "\<bar>of_int (py_round (fl (fl (of_nat l / of_nat t) * 100))) - 100 * of_nat l / of_nat t\<bar>
           \<le> (1 / 2 :: rat)"
proof -
  define y where "y = fl (fl (of_nat l / of_nat t) * 100)"
  define p where "p = py_round y"
  define x :: rat where "x = 100 * of_nat l / of_nat t"
  have tpos: "(0::rat) < of_nat t" using assms(2) by simp
  have e: "\<bar>y - x\<bar> \<le> 1 / 2 ^ 44"
    unfolding y_def x_def using assms(1,2) by (rule percentile_float_error)
  have n: "\<bar>of_int p - y\<bar> \<le> 1 / 2" unfolding p_def by (rule py_round_nearest)
  have px: "\<bar>of_int p - x\<bar> \<le> 1 / 2 + 1 / 2 ^ 44" using e n by linarith
  have tx: "of_nat t * x = of_int (100 * int l)" using assms(2) by (simp add: x_def)
  have "\<bar>of_int (2 * int t * p - 200 * int l) :: rat\<bar> = 2 * of_nat t * \<bar>of_int p - x\<bar>"
  proof -
    have "(of_int (2 * int t * p - 200 * int l) :: rat) = 2 * of_nat t * (of_int p - x)"
      using tx by (simp add: algebra_simps)
    then show ?thesis using tpos by (simp add: abs_mult)
  qed
  also have "\<dots> \<le> 2 * of_nat t * (1 / 2 + 1 / 2 ^ 44)"
    using px tpos by (intro mult_left_mono) simp_all
  also have "\<dots> = of_nat t + of_nat t / 2 ^ 43" by (simp add: algebra_simps)
  also have "\<dots> < of_nat t + 1"
  proof -
    have "t < 2 ^ 43" using assms(3) by (rule less_le_trans) simp
    then have "(of_nat t :: rat) < of_nat (2 ^ 43)" by (simp only: of_nat_less_iff)
    then show ?thesis by simp
  qed
  finally have "\<bar>of_int (2 * int t * p - 200 * int l) :: rat\<bar> < of_int (int t + 1)" by simp
  then have "\<bar>2 * int t * p - 200 * int l\<bar> < int t + 1"
    by (metis of_int_abs of_int_less_iff)
  then have "\<bar>2 * int t * p - 200 * int l\<bar> \<le> int t" by simp
  then have "\<bar>of_int (2 * int t * p - 200 * int l) :: rat\<bar> \<le> of_int (int t)"
    by (metis of_int_abs of_int_le_iff)
  moreover have "\<bar>of_int (2 * int t * p - 200 * int l) :: rat\<bar> = 2 * of_nat t * \<bar>of_int p - x\<bar>"
  proof -
    have "(of_int (2 * int t * p - 200 * int l) :: rat) = 2 * of_nat t * (of_int p - x)"
      using tx by (simp add: algebra_simps)
    then show ?thesis using tpos by (simp add: abs_mult)
  qed
  ultimately have "2 * of_nat t * \<bar>of_int p - x\<bar> \<le> (of_nat t :: rat)" by simp
  then have "\<bar>of_int p - x\<bar> \<le> 1 / 2" using tpos by (simp add: field_simps)
  then show ?thesis by (simp add: p_def y_def x_def)
qed

text \<open>
  Claim C8, as amended. The percentile is 50 when no assessment is stored. Otherwise it
  is the Python \<open>round\<close> of the float \<open>(lower / total) * 100\<close>, where \<open>lower\<close> counts the
  stored overall scores strictly below the given score: with fewer than \<open>2 ^ 40\<close>
  assessments stored it is an integer at most \<open>1/2\<close> away from \<open>100 * lower / total\<close>, and
  it is \<open>round (100 * lower / total)\<close> unless that value is an exact tie \<open>k + 1/2\<close>. It
  is 0 when the given score is below all stored scores and 100 when it is above all.
\<close>

theorem percentile_float_rounding:
  "(readiness_assessments conn = [] \<longrightarrow> percentile (get_percentile score conn) = 50) \<and>
   (readiness_assessments conn \<noteq> [] \<and> length (readiness_assessments conn) < 2 ^ 40 \<longrightarrow>
      \<bar>of_int (percentile (get_percentile score conn)) -
         100 * of_nat (length (filter (\<lambda>a. a_overall_score a < int score)
                                  (readiness_assessments conn))) /
         of_nat (length (readiness_assessments conn))\<bar> \<le> (1 / 2 :: rat) \<and>
      (100 * of_nat (length (filter (\<lambda>a. a_overall_score a < int score)
                               (readiness_assessments conn))) /
         of_nat (length (readiness_assessments conn)) -
       of_int \<lfloor>100 * of_nat (length (filter (\<lambda>a. a_overall_score a < int score)
                                        (readiness_assessments conn))) /
                 of_nat (length (readiness_assessments conn)) :: rat\<rfloor> \<noteq> (1 / 2 :: rat) \<longrightarrow>
       percentile (get_percentile score conn) =
         py_round (100 * of_nat (length (filter (\<lambda>a. a_overall_score a < int score)
                                           (readiness_assessments conn))) /
                   of_nat (length (readiness_assessments conn))))) \<and>
   (readiness_assessments conn \<noteq> [] \<longrightarrow>
      ((\<forall>a\<in>set (readiness_assessments conn). int score < a_overall_score a) \<longrightarrow>
         percentile (get_percentile score conn) = 0) \<and>
      ((\<forall>a\<in>set (readiness_assessments conn). a_overall_score a < int score) \<longrightarrow>
         percentile (get_percentile score conn) = 100))"
proof -
  let ?as = "readiness_assessments conn"
  let ?l = "length (filter (\<lambda>a. a_overall_score a < int score) ?as)"
  let ?t = "length ?as"
  let ?x = "100 * of_nat ?l / of_nat ?t :: rat"
  let ?p = "percentile (get_percentile score conn)"
  have empty: "?as = [] \<longrightarrow> ?p = 50"
    by (simp add: get_percentile_def Let_def)
  have val: "?p = py_round (fl (fl (of_nat ?l / of_nat ?t) * 100))" if "?as \<noteq> []"
    using that by (simp add: get_percentile_def Let_def)
  have le: "?l \<le> ?t" by simp
  have near: "\<bar>of_int ?p - ?x\<bar> \<le> 1 / 2" if ne: "?as \<noteq> []" and small: "?t < 2 ^ 40"
  proof -
    have "0 < ?t" using ne by simp
    then show ?thesis
      unfolding val[OF ne] using le small by (intro percentile_float_nearest)
  qed
  have exact: "?p = py_round ?x"
    if ne: "?as \<noteq> []" and small: "?t < 2 ^ 40" and nt: "?x - of_int \<lfloor>?x\<rfloor> \<noteq> 1 / 2"
    using near[OF ne small] py_round_nearest[of ?x] nt by (rule nearest_unique_or_tie)
  have below: "?p = 0"
    if ne: "?as \<noteq> []" and b: "\<forall>a\<in>set ?as. int score < a_overall_score a"
  proof -
    have "filter (\<lambda>a. a_overall_score a < int score) ?as = []"
      using b by (auto simp: filter_empty_conv)
    then show ?thesis using val[OF ne] py_round_of_int[of 0] by simp
  qed
  have above: "?p = 100"
    if ne: "?as \<noteq> []" and b: "\<forall>a\<in>set ?as. a_overall_score a < int score"
  proof -
    have "filter (\<lambda>a. a_overall_score a < int score) ?as = ?as"
      using b by simp
    then have q: "(of_nat ?l / of_nat ?t :: rat) = 1" using ne by simp
    have h: "py_round 100 = 100" using py_round_of_int[of 100] by simp
    show ?thesis unfolding val[OF ne] q by (simp add: fl_hundred h)
  qed
  show ?thesis
    using empty near exact below above by blast
qed

theorem percentile_float_rounding_witness:
  "percentile (get_percentile 35 (example_db [10, 20, 30, 40] [])) = 75 \<and>
   percentile (get_percentile 5 (example_db [10, 20, 30, 40] [])) = 0 \<and>
   percentile (get_percentile 45 (example_db [10, 20, 30, 40] [])) = 100 \<and>
   percentile (get_percentile 45 (example_db [] [])) = 50"
proof -
  let ?db = "example_db [10, 20, 30, 40] []"
  have r75: "py_round 75 = 75" using py_round_of_int[of 75] by simp
  have "\<bar>of_int (percentile (get_percentile 35 ?db)) - (of_int 75 :: rat)\<bar> \<le> 1 / 2"
    using percentile_float_rounding[of ?db 35]
    by (simp add: example_db_def example_assessment_def r75)
  then have a: "percentile (get_percentile 35 ?db) = 75"
    by (rule nearest_int_unique)
  have b: "percentile (get_percentile 5 ?db) = 0 \<and> percentile (get_percentile 45 ?db) = 100 \<and>
           percentile (get_percentile 45 (example_db [] [])) = 50"
    using percentile_float_rounding[of ?db 5] percentile_float_rounding[of ?db 45]
      percentile_float_rounding[of "example_db [] []" 45]
    by (simp add: example_db_def example_assessment_def)
  show ?thesis using a b by simp
qed

text \<open>
  The claim as stated fails at a tie: with 23 of 40 stored scores below the given one,
  \<open>100 * 23 / 40 = 57.5\<close> rounds to 58, but the float \<open>(23 / 40) * 100\<close> is
  \<open>57.49999999999999\<close> and the percentile returned is 57.
\<close>

theorem percentile_tie_counterexample:
  "length (filter (\<lambda>a. a_overall_score a < 50)
             (readiness_assessments (example_db (replicate 23 40 @ replicate 17 60) []))) = 23 \<and>
   length (readiness_assessments (example_db (replicate 23 40 @ replicate 17 60) [])) = 40 \<and>
   py_round (100 * 23 / 40) = 58 \<and>
   percentile (get_percentile 50 (example_db (replicate 23 40 @ replicate 17 60) [])) = 57"
proof -
  let ?db = "example_db (replicate 23 40 @ replicate 17 60) []"
  have l: "length (filter (\<lambda>a. a_overall_score a < 50) (readiness_assessments ?db)) = 23"
    by (simp add: example_db_def example_assessment_def o_def)
  have t: "length (readiness_assessments ?db) = 40"
    by (simp add: example_db_def)
  have r: "py_round (100 * 23 / 40) = 58" by code_simp
  have f: "py_round (fl (fl (23 / 40) * 100)) = 57" by code_simp
  have "percentile (get_percentile 50 ?db) = 57"
    using l t f by (simp add: get_percentile_def Let_def)
  then show ?thesis using l t r by simp
qed

section \<open>The pattern upsert\<close>

lemma rows_for_upsert_scored_same:
  "rows_for t d (upsert_scored rnd t d s tbl) = upsert_scored rnd t d s (rows_for t d tbl)"
  by (induction tbl) (auto simp: rows_for_def has_key_def)

lemma rows_for_upsert_scored_other:
  "(t', d') \<noteq> (t, d) \<Longrightarrow> rows_for t d (upsert_scored rnd t' d' s tbl) = rows_for t d tbl"
  by (induction tbl) (auto simp: rows_for_def has_key_def)

lemma rows_for_upsert_freq_other:
  "(t', d') \<noteq> (t, d) \<Longrightarrow> rows_for t d (upsert_freq t' d' tbl) = rows_for t d tbl"
  by (induction tbl) (auto simp: rows_for_def has_key_def)

lemma apply_upserts_snoc:
  "apply_upserts rnd (ops @ [(t, d, s)]) tbl = upsert_scored rnd t d s (apply_upserts rnd ops tbl)"
  by (simp add: apply_upserts_def)

lemma scores_for_snoc:
  "scores_for t d (ops @ [(t', d', s)]) =
     (if t' = t \<and> d' = d then scores_for t d ops @ [s] else scores_for t d ops)"
  by (simp add: scores_for_def)

lemma avg_after_snoc:
  "avg_after rnd (ss @ [s]) =
     (if ss = [] then s
      else rnd ((avg_after rnd ss * of_nat (length ss) + s) / of_nat (length ss + 1)))"
  by (simp add: avg_after_def)

lemma avg_after_single [simp]: "avg_after rnd [s] = s"
  by (simp add: avg_after_def)

text \<open>Under a fresh key, the upserts leave one row: the count and the running value.\<close>

lemma rows_for_apply_upserts:
  assumes "rows_for t d tbl = []"
  shows "rows_for t d (apply_upserts rnd ops tbl) =
           (if scores_for t d ops = [] then []
            else [\<lparr>pattern_type = t, pattern_data = d,
                   frequency = length (scores_for t d ops),
                   avg_score = Some (avg_after rnd (scores_for t d ops))\<rparr>])"
proof (induction ops rule: rev_induct)
  case Nil
  then show ?case using assms by (simp add: apply_upserts_def scores_for_def)
next
  case (snoc op ops)
  obtain t' d' s where op: "op = (t', d', s)" by (cases op) auto
  show ?case
  proof (cases "t' = t \<and> d' = d")
    case False
    then have "(t', d') \<noteq> (t, d)" by simp
    then show ?thesis
      using snoc False
      by (simp add: op apply_upserts_snoc scores_for_snoc rows_for_upsert_scored_other)
  next
    case True
    let ?ss = "scores_for t d ops"
    have step: "rows_for t d (apply_upserts rnd (ops @ [op]) tbl) =
                  upsert_scored rnd t d s (rows_for t d (apply_upserts rnd ops tbl))"
      using True by (simp add: op apply_upserts_snoc rows_for_upsert_scored_same)
    show ?thesis
    proof (cases "?ss = []")
      case e: True
      then show ?thesis
        using snoc True step by (simp add: op scores_for_snoc avg_after_snoc)
    next
      case ne: False
      then show ?thesis
        using snoc True step
        by (simp add: op scores_for_snoc has_key_def avg_after_snoc)
    qed
  qed
qed

lemma scores_for_mset:
  assumes "mset ops' = mset ops"
  shows "sum_list (scores_for t d ops') = sum_list (scores_for t d ops)"
    and "length (scores_for t d ops') = length (scores_for t d ops)"
proof -
  have m: "mset (scores_for t d ops') = mset (scores_for t d ops)"
    unfolding scores_for_def using assms by (simp only: mset_map mset_filter)
  show "sum_list (scores_for t d ops') = sum_list (scores_for t d ops)"
    using m by (metis sum_mset_sum_list)
  show "length (scores_for t d ops') = length (scores_for t d ops)"
    using m by (metis size_mset)
qed


text \<open>
  The running value times the count differs from the sum of the scores by at most the
  accumulated rounding errors.
\<close>

lemma avg_after_error:
  assumes rnd: "\<forall>x. \<bar>rnd x - x\<bar> \<le> \<epsilon>"
  shows "ss \<noteq> [] \<Longrightarrow>
         \<bar>avg_after rnd ss * of_nat (length ss) - sum_list ss\<bar> \<le>
           \<epsilon> * (of_nat (length ss) * (of_nat (length ss) + 1) / 2)"
proof (induction ss rule: rev_induct)
  case Nil
  then show ?case by simp
next
  case (snoc s ss)
  have e0: "0 \<le> \<epsilon>" using rnd abs_ge_zero[of "rnd 0 - 0"] by (meson order_trans)
  show ?case
  proof (cases "ss = []")
    case True
    then show ?thesis using e0 by (simp add: avg_after_snoc)
  next
    case False
    define n :: rat where "n = of_nat (length ss)"
    define a where "a = avg_after rnd ss"
    define z where "z = (a * n + s) / (n + 1)"
    have npos: "0 < n" using False by (simp add: n_def)
    have ih: "\<bar>a * n - sum_list ss\<bar> \<le> \<epsilon> * (n * (n + 1) / 2)"
      using snoc.IH[OF False] by (simp add: a_def n_def)
    have new: "avg_after rnd (ss @ [s]) = rnd z"
      using False by (simp add: avg_after_snoc z_def a_def n_def add.commute)
    have zn: "z * (n + 1) = a * n + s" using npos by (simp add: z_def)
    have "\<bar>rnd z - z\<bar> * (n + 1) \<le> \<epsilon> * (n + 1)"
      using rnd npos by (intro mult_right_mono) simp_all
    then have r: "\<bar>rnd z * (n + 1) - z * (n + 1)\<bar> \<le> \<epsilon> * (n + 1)"
      using npos by (simp add: abs_mult flip: left_diff_distrib)
    have "\<bar>rnd z * (n + 1) - (sum_list ss + s)\<bar> \<le>
            \<bar>rnd z * (n + 1) - z * (n + 1)\<bar> + \<bar>a * n - sum_list ss\<bar>"
      unfolding zn by linarith
    also have "\<dots> \<le> \<epsilon> * (n + 1) + \<epsilon> * (n * (n + 1) / 2)"
      using r ih by linarith
    also have "\<dots> = \<epsilon> * ((n + 1) * (n + 1 + 1) / 2)"
      by (simp add: algebra_simps)
    finally show ?thesis
      by (simp add: new n_def add.commute)
  qed
qed

lemma avg_after_near_mean:
  assumes rnd: "\<forall>x. \<bar>rnd x - x\<bar> \<le> \<epsilon>" and ne: "ss \<noteq> []"
  shows "\<bar>avg_after rnd ss - mean_rat ss\<bar> \<le> \<epsilon> * (of_nat (length ss) + 1) / 2"
proof -
  define n :: rat where "n = of_nat (length ss)"
  have npos: "0 < n" using ne by (simp add: n_def)
  have "\<bar>avg_after rnd ss - mean_rat ss\<bar> * n = \<bar>avg_after rnd ss * n - sum_list ss\<bar>"
  proof -
    have "(avg_after rnd ss - mean_rat ss) * n = avg_after rnd ss * n - sum_list ss"
      using npos by (simp add: mean_rat_def n_def left_diff_distrib)
    then show ?thesis using npos by (metis abs_mult abs_of_pos)
  qed
  also have "\<dots> \<le> \<epsilon> * (n * (n + 1) / 2)"
    using avg_after_error[OF rnd ne] by (simp add: n_def)
  also have "\<dots> = (\<epsilon> * (n + 1) / 2) * n" by simp
  finally have "\<bar>avg_after rnd ss - mean_rat ss\<bar> \<le> \<epsilon> * (n + 1) / 2"
    using npos by (simp only: mult_le_cancel_right_pos)
  then show ?thesis by (simp add: n_def)
qed

text \<open>
  Claim C3, as amended. Starting from a table with no row under a key, any sequence of
  upserts that contributes the scores \<open>s1 .. sk\<close> (\<open>k > 0\<close>) under that key leaves
  exactly one row for it, with frequency \<open>k\<close>, in whatever order the scores arrive. Its
  \<open>avg_score\<close> is the value of the incremental formula in the store's arithmetic: it is
  the arithmetic mean, whatever the order, when the store's division is exact, and
  differs from the mean by at most \<open>(k + 1) / 2\<close> times the rounding error of one
  division otherwise.
\<close>

theorem upsert_running_mean:
  assumes "rows_for t d tbl = []" and "scores_for t d ops \<noteq> []"
  shows "rows_for t d (apply_upserts rnd ops tbl) =
           [\<lparr>pattern_type = t, pattern_data = d,
             frequency = length (scores_for t d ops),
             avg_score = Some (avg_after rnd (scores_for t d ops))\<rparr>] \<and>
         (\<forall>ops'. mset ops' = mset ops \<longrightarrow>
            map frequency (rows_for t d (apply_upserts rnd ops' tbl)) =
              [length (scores_for t d ops)]) \<and>
         ((\<forall>x. rnd x = x) \<longrightarrow>
            avg_after rnd (scores_for t d ops) = mean_rat (scores_for t d ops) \<and>
            (\<forall>ops'. mset ops' = mset ops \<longrightarrow>
               rows_for t d (apply_upserts rnd ops' tbl) =
               rows_for t d (apply_upserts rnd ops tbl))) \<and>
         (\<forall>\<epsilon>. (\<forall>x. \<bar>rnd x - x\<bar> \<le> \<epsilon>) \<longrightarrow>
            \<bar>avg_after rnd (scores_for t d ops) - mean_rat (scores_for t d ops)\<bar> \<le>
              \<epsilon> * (of_nat (length (scores_for t d ops)) + 1) / 2)"
proof -
  let ?ss = "scores_for t d ops"
  have one: "rows_for t d (apply_upserts rnd ops tbl) =
           [\<lparr>pattern_type = t, pattern_data = d, frequency = length ?ss,
             avg_score = Some (avg_after rnd ?ss)\<rparr>]"
    using assms(2) by (simp add: rows_for_apply_upserts[OF assms(1)])
  have perm: "scores_for t d ops' \<noteq> [] \<and>
              length (scores_for t d ops') = length ?ss \<and>
              sum_list (scores_for t d ops') = sum_list ?ss"
    if "mset ops' = mset ops" for ops'
  proof -
    have s: "sum_list (scores_for t d ops') = sum_list ?ss"
      and l: "length (scores_for t d ops') = length ?ss"
      using scores_for_mset[OF that] by simp_all
    have "scores_for t d ops' \<noteq> []" using l assms(2) by auto
    then show ?thesis using s l by simp
  qed
  have freq: "map frequency (rows_for t d (apply_upserts rnd ops' tbl)) = [length ?ss]"
    if "mset ops' = mset ops" for ops'
    using perm[OF that] by (simp add: rows_for_apply_upserts[OF assms(1)])
  have near: "\<bar>avg_after rnd (scores_for t d ops') - mean_rat (scores_for t d ops')\<bar> \<le>
              \<epsilon> * (of_nat (length (scores_for t d ops')) + 1) / 2"
    if "\<forall>x. \<bar>rnd x - x\<bar> \<le> \<epsilon>" and "scores_for t d ops' \<noteq> []" for \<epsilon> ops'
    using that by (rule avg_after_near_mean)
  have exact: "avg_after rnd (scores_for t d ops') = mean_rat (scores_for t d ops')"
    if id: "\<forall>x. rnd x = x" and ne: "scores_for t d ops' \<noteq> []" for ops'
  proof -
    have "\<forall>x. \<bar>rnd x - x\<bar> \<le> 0" using id by simp
    then have "\<bar>avg_after rnd (scores_for t d ops') - mean_rat (scores_for t d ops')\<bar> \<le>
                 0 * (of_nat (length (scores_for t d ops')) + 1) / 2"
      using ne by (rule near)
    then show ?thesis by simp
  qed
  have order: "rows_for t d (apply_upserts rnd ops' tbl) = rows_for t d (apply_upserts rnd ops tbl)"
    if id: "\<forall>x. rnd x = x" and m: "mset ops' = mset ops" for ops'
  proof -
    have p: "scores_for t d ops' \<noteq> []" "length (scores_for t d ops') = length ?ss"
      "sum_list (scores_for t d ops') = sum_list ?ss"
      using perm[OF m] by simp_all
    have "mean_rat (scores_for t d ops') = mean_rat ?ss"
      by (simp add: mean_rat_def p)
    then have "avg_after rnd (scores_for t d ops') = avg_after rnd ?ss"
      using exact[OF id p(1)] exact[OF id assms(2)] by simp
    then show ?thesis
      using p assms(2) by (simp add: rows_for_apply_upserts[OF assms(1)])
  qed
  show ?thesis
    using one freq exact[OF _ assms(2)] order near[OF _ assms(2)] by blast
qed

theorem upsert_running_mean_witness:
  "rows_for ''industry_readiness'' (Industry (Some ''Retail''))
     (apply_upserts id
        [(''industry_readiness'', Industry (Some ''Retail''), 80),
         (''weak_category'', Category ''Team Readiness'', 30),
         (''industry_readiness'', Industry (Some ''Retail''), 60),
         (''industry_readiness'', Industry (Some ''Retail''), 71)] []) =
     [\<lparr>pattern_type = ''industry_readiness'', pattern_data = Industry (Some ''Retail''),
       frequency = 3, avg_score = Some (211 / 3)\<rparr>] \<and>
   rows_for ''industry_readiness'' (Industry (Some ''Retail''))
     (apply_upserts id
        [(''industry_readiness'', Industry (Some ''Retail''), 71),
         (''industry_readiness'', Industry (Some ''Retail''), 60),
         (''weak_category'', Category ''Team Readiness'', 30),
         (''industry_readiness'', Industry (Some ''Retail''), 80)] []) =
     [\<lparr>pattern_type = ''industry_readiness'', pattern_data = Industry (Some ''Retail''),
       frequency = 3, avg_score = Some (211 / 3)\<rparr>]"
  using upsert_running_mean[of "''industry_readiness''" "Industry (Some ''Retail'')" "[]"
      "[(''industry_readiness'', Industry (Some ''Retail''), 80),
        (''weak_category'', Category ''Team Readiness'', 30),
        (''industry_readiness'', Industry (Some ''Retail''), 60),
        (''industry_readiness'', Industry (Some ''Retail''), 71)]" id]
    upsert_running_mean[of "''industry_readiness''" "Industry (Some ''Retail'')" "[]"
      "[(''industry_readiness'', Industry (Some ''Retail''), 71),
        (''industry_readiness'', Industry (Some ''Retail''), 60),
        (''weak_category'', Category ''Team Readiness'', 30),
        (''industry_readiness'', Industry (Some ''Retail''), 80)]" id]
  by (simp add: rows_for_def scores_for_def mean_rat_def)

lemma numeric16_error: "\<bar>numeric16 x - x\<bar> \<le> 1 / (2 * 10 ^ 16)"
proof -
  have r: "\<bar>of_int \<lfloor>y + 1 / 2\<rfloor> / 10 ^ 16 - y / 10 ^ 16\<bar> \<le> 1 / (2 * 10 ^ 16)" for y :: rat
  proof -
    define a :: rat where "a = of_int \<lfloor>y + 1 / 2\<rfloor>"
    define c :: rat where "c = 10 ^ 16"
    have c: "0 < c" by (simp add: c_def)
    have h: "\<bar>a - y\<bar> \<le> 1 / 2" unfolding a_def by linarith
    have "\<bar>a - y\<bar> / c \<le> (1 / 2) / c" by (rule divide_right_mono [OF h]) (use c in simp)
    moreover have "\<bar>a / c - y / c\<bar> = \<bar>a - y\<bar> / c"
      using c by (simp add: diff_divide_distrib [symmetric] del: of_int_diff)
    moreover have "(1 / 2) / c = 1 / (2 * c)" by simp
    ultimately have "\<bar>a / c - y / c\<bar> \<le> 1 / (2 * c)" by (simp only:)
    then show ?thesis unfolding a_def c_def .
  qed
  show ?thesis
  proof (cases "0 \<le> x")
    case True
    have "numeric16 x - x = of_int \<lfloor>x * 10 ^ 16 + 1 / 2\<rfloor> / 10 ^ 16 - (x * 10 ^ 16) / 10 ^ 16"
      using True by (simp add: numeric16_def)
    then show ?thesis using r[of "x * 10 ^ 16"] by (simp only:)
  next
    case False
    have "numeric16 x - x =
        - (of_int \<lfloor>- x * 10 ^ 16 + 1 / 2\<rfloor> / 10 ^ 16 - (- x * 10 ^ 16) / 10 ^ 16)"
      using False by (simp add: numeric16_def)
    then have "\<bar>numeric16 x - x\<bar> =
        \<bar>of_int \<lfloor>- x * 10 ^ 16 + 1 / 2\<rfloor> / 10 ^ 16 - (- x * 10 ^ 16) / 10 ^ 16\<bar>"
      by (simp only: abs_minus_cancel)
    then show ?thesis using r[of "- x * 10 ^ 16"] by (simp only:)
  qed
qed

text \<open>
  The claim as stated fails in a store that rounds its division. With the division of
  PostgreSQL's \<^verbatim>\<open>numeric\<close> type, the scores 80, 60, 71 leave
  \<open>70.3333333333333333\<close>, which is not their mean \<open>211 / 3\<close>, and the scores
  27, 4, 63, 89, 23, 47, 59 leave \<open>44.5714285714285715\<close> in this order and
  \<open>44.5714285714285714\<close> in the reverse order.
\<close>

theorem upsert_rounded_mean_counterexample:
  "avg_after numeric16 [80, 60, 71] = 703333333333333333 / 10 ^ 16 \<and>
   mean_rat [80, 60, 71] = 211 / 3 \<and>
   avg_after numeric16 [80, 60, 71] \<noteq> mean_rat [80, 60, 71] \<and>
   avg_after numeric16 [27, 4, 63, 89, 23, 47, 59] \<noteq>
     avg_after numeric16 (rev [27, 4, 63, 89, 23, 47, 59]) \<and>
   map avg_score
     (rows_for ''industry_readiness'' (Industry (Some ''Retail''))
        (apply_upserts numeric16
           (map (\<lambda>s. (''industry_readiness'', Industry (Some ''Retail''), s)) [80, 60, 71]) [])) =
     [Some (703333333333333333 / 10 ^ 16)] \<and>
   map avg_score
     (rows_for ''industry_readiness'' (Industry (Some ''Retail''))
        (apply_upserts numeric16
           (map (\<lambda>s. (''industry_readiness'', Industry (Some ''Retail''), s))
              [27, 4, 63, 89, 23, 47, 59]) [])) =
     [Some (445714285714285715 / 10 ^ 16)] \<and>
   map avg_score
     (rows_for ''industry_readiness'' (Industry (Some ''Retail''))
        (apply_upserts numeric16
           (map (\<lambda>s. (''industry_readiness'', Industry (Some ''Retail''), s))
              (rev [27, 4, 63, 89, 23, 47, 59])) [])) =
     [Some (445714285714285714 / 10 ^ 16)]"
proof -
  have key: "rows_for ''industry_readiness'' (Industry (Some ''Retail'')) [] = []"
    by (simp add: rows_for_def)
  have sc: "scores_for ''industry_readiness'' (Industry (Some ''Retail''))
              (map (\<lambda>s. (''industry_readiness'', Industry (Some ''Retail''), s)) ss) = ss" for ss
    by (induction ss) (simp_all add: scores_for_def)
  have rows: "map avg_score
     (rows_for ''industry_readiness'' (Industry (Some ''Retail''))
        (apply_upserts numeric16
           (map (\<lambda>s. (''industry_readiness'', Industry (Some ''Retail''), s)) ss) [])) =
     [Some (avg_after numeric16 ss)]" if "ss \<noteq> []" for ss
    using that by (simp add: rows_for_apply_upserts[OF key] sc)
  have a: "avg_after numeric16 [80, 60, 71] = 703333333333333333 / 10 ^ 16"
    by code_simp
  have b: "avg_after numeric16 [27, 4, 63, 89, 23, 47, 59] = 445714285714285715 / 10 ^ 16"
    by code_simp
  have c: "avg_after numeric16 (rev [27, 4, 63, 89, 23, 47, 59]) = 445714285714285714 / 10 ^ 16"
    by code_simp
  have m: "mean_rat [80, 60, 71] = 211 / 3"
    by (simp add: mean_rat_def)
  have ne1: "avg_after numeric16 [80, 60, 71] \<noteq> mean_rat [80, 60, 71]"
    unfolding a m by simp
  have ne2: "avg_after numeric16 [27, 4, 63, 89, 23, 47, 59] \<noteq>
               avg_after numeric16 (rev [27, 4, 63, 89, 23, 47, 59])"
    unfolding b c by simp
  show ?thesis
    using a b c m ne1 ne2 rows[of "[80, 60, 71]"] rows[of "[27, 4, 63, 89, 23, 47, 59]"]
      rows[of "rev [27, 4, 63, 89, 23, 47, 59]"]
    by (simp only: list.distinct rev_is_Nil_conv not_False_eq_True simp_thms)
qed

section \<open>Pattern logging\<close>

text \<open>An upsert touches only rows of its own pattern type.\<close>

lemma filter_type_upsert_scored:
  "t' \<noteq> t \<Longrightarrow>
   filter (\<lambda>r. pattern_type r = t) (upsert_scored rnd t' d s tbl) =
   filter (\<lambda>r. pattern_type r = t) tbl"
  by (induction tbl) (auto simp: has_key_def)

lemma filter_type_upsert_freq:
  "t' \<noteq> t \<Longrightarrow>
   filter (\<lambda>r. pattern_type r = t) (upsert_freq t' d tbl) =
   filter (\<lambda>r. pattern_type r = t) tbl"
  by (induction tbl) (auto simp: has_key_def)

lemma filter_type_fold_weak:
  "t' \<noteq> t \<Longrightarrow>
   filter (\<lambda>r. pattern_type r = t)
     (fold (\<lambda>(category, score). upsert_scored rnd t' (Category category) (of_int score)) wc tbl) =
   filter (\<lambda>r. pattern_type r = t) tbl"
  by (induction wc arbitrary: tbl) (auto simp: filter_type_upsert_scored)

lemma filter_type_fold_blocking:
  "t' \<noteq> t \<Longrightarrow>
   filter (\<lambda>r. pattern_type r = t)
     (fold (\<lambda>(category, score) p.
              if score < (60::int) then upsert_scored rnd t' (Category category) (of_int score) p
              else p) cs tbl) =
   filter (\<lambda>r. pattern_type r = t) tbl"
  by (induction cs arbitrary: tbl) (auto simp: filter_type_upsert_scored)

text \<open>The analysis writes insights only.\<close>

lemma analyze_patterns_patterns:
  "analyze_patterns conn = Inr conn' \<Longrightarrow>
   readiness_patterns conn' = readiness_patterns conn \<and>
   readiness_assessments conn' = readiness_assessments conn"
  by (auto simp: analyze_patterns_def Let_def split: sum.splits list.splits option.splits)

lemma check_analysis_trigger_patterns:
  "check_analysis_trigger conn = Inr conn' \<Longrightarrow>
   readiness_patterns conn' = readiness_patterns conn \<and>
   readiness_assessments conn' = readiness_assessments conn"
  by (auto simp: check_analysis_trigger_def Let_def dest: analyze_patterns_patterns
      split: if_splits)

text \<open>The patterns table after a call of \<^verbatim>\<open>log_patterns\<close> that returns.\<close>

lemma log_patterns_patterns:
  assumes "log_patterns rnd a conn = Inr conn'"
  shows "\<exists>s. ad_overall_score a = Some s \<and>
           readiness_patterns conn' =
             (let p1 = (if truthy_str (ad_industry a) \<and> truthy_int s then
                          upsert_scored rnd ''industry_readiness'' (Industry (ad_industry a))
                            (of_int s) (readiness_patterns conn)
                        else readiness_patterns conn);
                  p2 = (case ad_category_scores a of
                          None \<Rightarrow> p1
                        | Some cs \<Rightarrow>
                            fold (\<lambda>(category, score) p.
                                    if score < 60 then
                                      upsert_scored rnd ''blocking_factor'' (Category category)
                                        (of_int score) p
                                    else p) cs p1)
              in if 75 \<le> s then upsert_freq ''high_performer'' (ScoreRange ''75+'' (ad_industry a)) p2
                 else p2)"
proof (cases "ad_overall_score a")
  case None
  then show ?thesis using assms by (simp add: log_patterns_def Let_def)
next
  case (Some s)
  then show ?thesis
    using assms
    by (auto simp: log_patterns_def Let_def dest!: check_analysis_trigger_patterns
        split: option.splits)
qed

text \<open>The patterns table after the handler.\<close>

lemma assess_readiness_patterns:
  assumes "req_answers data = Some answers" and "answers \<noteq> []"
  shows "readiness_patterns (snd (assess_readiness rnd data conn)) =
           fold (\<lambda>(category, score).
                   upsert_scored rnd ''weak_category'' (Category category) (of_int score))
             (calc_weak_categories (calc_category_scores answers))
             (if truthy_str (req_industry data) \<and> truthy_int (calc_overall_score answers) then
                upsert_scored rnd ''industry_readiness'' (Industry (req_industry data))
                  (of_int (calc_overall_score answers)) (readiness_patterns conn)
              else readiness_patterns conn)"
  using assms by (simp add: assess_readiness_def Let_def)

lemma assess_readiness_200:
  assumes "assess_readiness rnd data conn = (Http200 r, conn')"
  shows "\<exists>answers. req_answers data = Some answers \<and> answers \<noteq> [] \<and>
           overall_score r = calc_overall_score answers \<and>
           category_scores r = calc_category_scores answers"
proof (cases "req_answers data")
  case None
  then show ?thesis using assms by (simp add: assess_readiness_def Let_def)
next
  case (Some answers)
  show ?thesis
  proof (cases "answers = []")
    case True
    then show ?thesis using assms Some by (simp add: assess_readiness_def Let_def)
  next
    case False
    then show ?thesis
      using assms Some assess_readiness_ok[OF Some False, of rnd conn] by auto
  qed
qed

text \<open>
  Claim C10. An assessment with a non-empty industry and an overall score of 0, or with
  the empty string as industry, upserts no \<open>industry_readiness\<close> pattern: the rows of
  that type are the same before and after, in the HTTP handler and in \<open>log_patterns\<close>.
\<close>

theorem industry_pattern_needs_truthy_fields:
  "(\<forall>r conn'. assess_readiness rnd data conn = (Http200 r, conn') \<and>
       (overall_score r = 0 \<or> req_industry data = Some []) \<longrightarrow>
       filter (\<lambda>p. pattern_type p = ''industry_readiness'') (readiness_patterns conn') =
       filter (\<lambda>p. pattern_type p = ''industry_readiness'') (readiness_patterns conn)) \<and>
   (\<forall>conn'. log_patterns rnd a conn = Inr conn' \<and>
       (ad_overall_score a = Some 0 \<or> ad_industry a = Some []) \<longrightarrow>
       filter (\<lambda>p. pattern_type p = ''industry_readiness'') (readiness_patterns conn') =
       filter (\<lambda>p. pattern_type p = ''industry_readiness'') (readiness_patterns conn))"
proof (intro conjI allI impI)
  fix r conn'
  assume h: "assess_readiness rnd data conn = (Http200 r, conn') \<and>
       (overall_score r = 0 \<or> req_industry data = Some [])"
  then obtain answers where a: "req_answers data = Some answers" "answers \<noteq> []"
    and o: "overall_score r = calc_overall_score answers"
    using assess_readiness_200 by blast
  have falsy: "\<not> (truthy_str (req_industry data) \<and> truthy_int (calc_overall_score answers))"
    using h o by (auto simp: truthy_str_def truthy_int_def)
  have "readiness_patterns conn' = readiness_patterns (snd (assess_readiness rnd data conn))"
    using h by simp
  then show "filter (\<lambda>p. pattern_type p = ''industry_readiness'') (readiness_patterns conn') =
       filter (\<lambda>p. pattern_type p = ''industry_readiness'') (readiness_patterns conn)"
    using falsy by (simp add: assess_readiness_patterns[OF a] filter_type_fold_weak)
next
  fix conn'
  assume h: "log_patterns rnd a conn = Inr conn' \<and>
       (ad_overall_score a = Some 0 \<or> ad_industry a = Some [])"
  then obtain s where s: "ad_overall_score a = Some s"
    and p: "readiness_patterns conn' =
             (let p1 = (if truthy_str (ad_industry a) \<and> truthy_int s then
                          upsert_scored rnd ''industry_readiness'' (Industry (ad_industry a))
                            (of_int s) (readiness_patterns conn)
                        else readiness_patterns conn);
                  p2 = (case ad_category_scores a of
                          None \<Rightarrow> p1
                        | Some cs \<Rightarrow>
                            fold (\<lambda>(category, score) p.
                                    if score < 60 then
                                      upsert_scored rnd ''blocking_factor'' (Category category)
                                        (of_int score) p
                                    else p) cs p1)
              in if 75 \<le> s then upsert_freq ''high_performer'' (ScoreRange ''75+'' (ad_industry a)) p2
                 else p2)"
    using log_patterns_patterns by blast
  have falsy: "\<not> (truthy_str (ad_industry a) \<and> truthy_int s)"
    using h s by (auto simp: truthy_str_def truthy_int_def)
  show "filter (\<lambda>p. pattern_type p = ''industry_readiness'') (readiness_patterns conn') =
       filter (\<lambda>p. pattern_type p = ''industry_readiness'') (readiness_patterns conn)"
    unfolding p using falsy
    by (auto simp: Let_def filter_type_upsert_freq filter_type_fold_blocking split: option.splits)
qed

theorem industry_pattern_needs_truthy_fields_witness:
  "(\<exists>r conn'.
      assess_readiness id
        \<lparr>req_company_name = None, req_industry = Some ''Retail'', req_email = None,
         req_answers = Some (int_answers [(''1'', 0), (''2'', 0)])\<rparr> (example_db [] []) =
        (Http200 r, conn') \<and>
      overall_score r = 0 \<and>
      filter (\<lambda>p. pattern_type p = ''industry_readiness'') (readiness_patterns conn') = []) \<and>
   (\<exists>conn'.
      log_patterns id
        \<lparr>ad_industry = Some ''Retail'', ad_overall_score = Some 0,
         ad_category_scores = Some [(''Team Readiness'', 0)]\<rparr> (example_db [50] []) = Inr conn' \<and>
      filter (\<lambda>p. pattern_type p = ''industry_readiness'') (readiness_patterns conn') = [])"
proof -
  let ?ans = "int_answers [(''1'', 0), (''2'', 0)]"
  let ?d = "\<lparr>req_company_name = None, req_industry = Some ''Retail'', req_email = None,
             req_answers = Some ?ans\<rparr>"
  let ?a = "\<lparr>ad_industry = Some ''Retail'', ad_overall_score = Some 0,
             ad_category_scores = Some [(''Team Readiness'', 0)]\<rparr>"
  have ne: "?ans \<noteq> []" by (simp add: int_answers_def)
  have "py_round (mean [0, 0]) = 0"
    unfolding mean_def by code_simp
  then have z: "calc_overall_score ?ans = 0"
    by (simp add: calc_overall_score_ints)
  obtain r conn' where r: "assess_readiness id ?d (example_db [] []) = (Http200 r, conn')"
    and o: "overall_score r = 0"
    using assess_readiness_ok[of ?d ?ans id "example_db [] []"] ne z by auto
  have 1: "filter (\<lambda>p. pattern_type p = ''industry_readiness'') (readiness_patterns conn') = []"
    using industry_pattern_needs_truthy_fields[of id ?d "example_db [] []" ?a] r o
    by (simp add: example_db_def)
  obtain c2 where l: "log_patterns id ?a (example_db [50] []) = Inr c2"
    by (simp add: log_patterns_def check_analysis_trigger_def example_db_def Let_def
        truthy_int_def)
  have 2: "filter (\<lambda>p. pattern_type p = ''industry_readiness'') (readiness_patterns c2) = []"
    using industry_pattern_needs_truthy_fields[of id ?d "example_db [50] []" ?a] l
    by (simp add: example_db_def)
  show ?thesis using r o 1 l 2 by blast
qed

section \<open>The analysis trigger\<close>

text \<open>The handler never writes to the insights table.\<close>

lemma assess_readiness_insights:
  "readiness_insights (snd (assess_readiness rnd data conn)) = readiness_insights conn"
  by (cases "req_answers data") (simp_all add: assess_readiness_def Let_def)

text \<open>The handler adds one assessment when it answers with status 200.\<close>

lemma assess_readiness_count:
  assumes "assess_readiness rnd data conn = (Http200 r, conn')"
  shows "length (readiness_assessments conn') = Suc (length (readiness_assessments conn))"
proof -
  obtain answers where a: "req_answers data = Some answers" "answers \<noteq> []"
    using assess_readiness_200[OF assms] by blast
  have "length (readiness_assessments (snd (assess_readiness rnd data conn))) =
          Suc (length (readiness_assessments conn))"
    using a by (simp add: assess_readiness_def Let_def)
  then show ?thesis using assms by simp
qed

text \<open>With at least one assessment stored, a successful analysis adds an insight.\<close>

lemma analyze_patterns_insights:
  assumes "analyze_patterns conn = Inr conn'" and "readiness_assessments conn \<noteq> []"
  shows "length (readiness_insights conn) < length (readiness_insights conn')"
  using assms
  by (auto simp: analyze_patterns_def Let_def split: sum.splits list.splits option.splits)

text \<open>
  In \<open>log_patterns\<close> the trigger is the last step: when the count of assessments is a
  multiple of 10, the result of a call that returns is the result of the analysis.
\<close>

lemma log_patterns_runs_analysis:
  assumes "log_patterns rnd a conn = Inr conn'"
    and "length (readiness_assessments conn) mod 10 = 0"
  shows "\<exists>p. analyze_patterns (conn\<lparr>readiness_patterns := p\<rparr>) = Inr conn'"
  using assms
  by (auto simp: log_patterns_def check_analysis_trigger_def Let_def split: option.splits)

text \<open>
  Claim C4. The tenth assessment through \<^verbatim>\<open>POST /api/assess\<close>: the handler stores it,
  logs its patterns and answers, and the insights table is as before; the trigger of the
  engine, run on the database the handler leaves, would have written an insight.
\<close>

theorem tenth_assessment_no_analysis:
  "\<exists>r conn'.
     assess_readiness rnd
       \<lparr>req_company_name = None, req_industry = Some ''Retail'', req_email = None,
        req_answers = Some (int_answers [(''1'', 80), (''2'', 60)])\<rparr>
       (example_db [50, 50, 50, 50, 50, 50, 50, 50, 50] []) = (Http200 r, conn') \<and>
     length (readiness_assessments conn') = 10 \<and>
     readiness_insights conn' = [] \<and>
     (\<exists>conn''. check_analysis_trigger conn' = Inr conn'' \<and>
                length (readiness_insights conn'') = 1)"
proof -
  let ?ans = "int_answers [(''1'', 80), (''2'', 60)]"
  let ?d = "\<lparr>req_company_name = None, req_industry = Some ''Retail'', req_email = None,
             req_answers = Some ?ans\<rparr>"
  let ?db = "example_db [50, 50, 50, 50, 50, 50, 50, 50, 50] []"
  have ne: "?ans \<noteq> []" by (simp add: int_answers_def)
  obtain r conn' where r: "assess_readiness rnd ?d ?db = (Http200 r, conn')"
    using assess_readiness_ok[OF _ ne, of ?d rnd ?db] by auto
  have n: "length (readiness_assessments conn') = 10"
    using assess_readiness_count[OF r] by (simp add: example_db_def)
  have i: "readiness_insights conn' = []"
    using assess_readiness_insights[of rnd ?d ?db] r by (simp add: example_db_def)
  have "py_round (mean [80, 60]) = 70"
    unfolding mean_def by code_simp
  then have o: "calc_overall_score ?ans = 70"
    by (simp add: calc_overall_score_ints)
  have w: "calc_weak_categories (calc_category_scores ?ans) =
             [(''Team Readiness'', 0), (''Financial Capacity'', 0), (''Problem Definition'', 0)]"
    by (simp add: calc_category_scores_ints calc_weak_categories_def py_get_def)
  have p: "readiness_patterns conn' =
      [\<lparr>pattern_type = ''industry_readiness'', pattern_data = Industry (Some ''Retail''),
         frequency = 1, avg_score = Some 70\<rparr>,
       \<lparr>pattern_type = ''weak_category'', pattern_data = Category ''Team Readiness'',
         frequency = 1, avg_score = Some 0\<rparr>,
       \<lparr>pattern_type = ''weak_category'', pattern_data = Category ''Financial Capacity'',
         frequency = 1, avg_score = Some 0\<rparr>,
       \<lparr>pattern_type = ''weak_category'', pattern_data = Category ''Problem Definition'',
         frequency = 1, avg_score = Some 0\<rparr>]"
    using assess_readiness_patterns[OF _ ne, of ?d rnd ?db] r
    by (simp add: o w example_db_def truthy_str_def truthy_int_def has_key_def)
  have ne2: "readiness_assessments conn' \<noteq> []" using n by auto
  have q: "query_top_industries conn' = []" "query_blocking_factors conn' = []"
    by (simp_all add: query_top_industries_def query_blocking_factors_def p)
  have "\<exists>conn''. check_analysis_trigger conn' = Inr conn'' \<and>
                length (readiness_insights conn'') = 1"
    using n i ne2 by (simp add: check_analysis_trigger_def analyze_patterns_def q Let_def)
  then show ?thesis using r n i by blast
qed

text \<open>The blocking-factor loop, seen from one key.\<close>

lemma rows_for_fold_blocking:
  assumes "distinct (map fst cs)"
  shows "rows_for ''blocking_factor'' (Category c)
           (fold (\<lambda>(category, score) p.
                    if score < (60::int) then
                      upsert_scored rnd ''blocking_factor'' (Category category) (of_int score) p
                    else p) cs tbl) =
         (case map_of cs c of
            None \<Rightarrow> rows_for ''blocking_factor'' (Category c) tbl
          | Some s \<Rightarrow>
              if s < 60 then
                upsert_scored rnd ''blocking_factor'' (Category c) (of_int s)
                  (rows_for ''blocking_factor'' (Category c) tbl)
              else rows_for ''blocking_factor'' (Category c) tbl)"
  using assms
proof (induction cs arbitrary: tbl)
  case Nil
  then show ?case by simp
next
  case (Cons x cs)
  obtain c' s' where x: "x = (c', s')" by (cases x) auto
  have d: "distinct (map fst cs)" and nin: "c' \<notin> fst ` set cs"
    using Cons.prems by (simp_all add: x)
  show ?case
  proof (cases "c' = c")
    case True
    then have "map_of cs c = None" using nin by (simp add: map_of_eq_None_iff)
    then show ?thesis
      using True Cons.IH[OF d]
      by (simp add: x rows_for_upsert_scored_same)
  next
    case False
    then have "(''blocking_factor'', Category c') \<noteq> (''blocking_factor'', Category c)" by simp
    then show ?thesis
      using False Cons.IH[OF d]
      by (simp add: x rows_for_upsert_scored_other split: option.splits)
  qed
qed

lemma rows_for_fold_weak:
  "t \<noteq> ''weak_category'' \<Longrightarrow>
   rows_for t d
     (fold (\<lambda>(category, score).
              upsert_scored rnd ''weak_category'' (Category category) (of_int score)) wc tbl) =
   rows_for t d tbl"
  by (induction wc arbitrary: tbl) (auto simp: rows_for_upsert_scored_other)

text \<open>
  When \<open>log_patterns\<close> returns for an assessment with category scores, each category
  scoring below 60 has had the scored upsert applied to its \<open>blocking_factor\<close> row with
  that score, and the \<open>blocking_factor\<close> row of any category that does not score below
  60 is untouched. The HTTP handler leaves every \<open>blocking_factor\<close> row untouched.
\<close>

lemma log_patterns_blocking_factors:
  assumes "log_patterns rnd a conn = Inr conn'"
    and "ad_category_scores a = Some cs" and "distinct (map fst cs)"
  shows "(\<forall>(c, s)\<in>set cs. s < 60 \<longrightarrow>
            rows_for ''blocking_factor'' (Category c) (readiness_patterns conn') =
            upsert_scored rnd ''blocking_factor'' (Category c) (of_int s)
              (rows_for ''blocking_factor'' (Category c) (readiness_patterns conn))) \<and>
         (\<forall>c. (\<forall>s. (c, s) \<in> set cs \<longrightarrow> 60 \<le> s) \<longrightarrow>
            rows_for ''blocking_factor'' (Category c) (readiness_patterns conn') =
            rows_for ''blocking_factor'' (Category c) (readiness_patterns conn)) \<and>
         (\<forall>d. rows_for ''blocking_factor'' d
                (readiness_patterns (snd (assess_readiness rnd data conn))) =
              rows_for ''blocking_factor'' d (readiness_patterns conn))"
proof -
  obtain s0 where s0: "ad_overall_score a = Some s0"
    and p: "readiness_patterns conn' =
             (let p1 = (if truthy_str (ad_industry a) \<and> truthy_int s0 then
                          upsert_scored rnd ''industry_readiness'' (Industry (ad_industry a))
                            (of_int s0) (readiness_patterns conn)
                        else readiness_patterns conn);
                  p2 = (case ad_category_scores a of
                          None \<Rightarrow> p1
                        | Some cs \<Rightarrow>
                            fold (\<lambda>(category, score) p.
                                    if score < 60 then
                                      upsert_scored rnd ''blocking_factor'' (Category category)
                                        (of_int score) p
                                    else p) cs p1)
              in if 75 \<le> s0 then upsert_freq ''high_performer'' (ScoreRange ''75+'' (ad_industry a)) p2
                 else p2)"
    using log_patterns_patterns[OF assms(1)] by blast
  have rows: "rows_for ''blocking_factor'' (Category c) (readiness_patterns conn') =
         (case map_of cs c of
            None \<Rightarrow> rows_for ''blocking_factor'' (Category c) (readiness_patterns conn)
          | Some s \<Rightarrow>
              if s < 60 then
                upsert_scored rnd ''blocking_factor'' (Category c) (of_int s)
                  (rows_for ''blocking_factor'' (Category c) (readiness_patterns conn))
              else rows_for ''blocking_factor'' (Category c) (readiness_patterns conn))" for c
    unfolding p
    by (simp add: Let_def assms(2) rows_for_upsert_freq_other rows_for_fold_blocking[OF assms(3)]
        rows_for_upsert_scored_other split: option.splits)
  have low: "\<forall>(c, s)\<in>set cs. s < 60 \<longrightarrow>
            rows_for ''blocking_factor'' (Category c) (readiness_patterns conn') =
            upsert_scored rnd ''blocking_factor'' (Category c) (of_int s)
              (rows_for ''blocking_factor'' (Category c) (readiness_patterns conn))"
    using assms(3) by (auto simp: rows)
  have high: "\<forall>c. (\<forall>s. (c, s) \<in> set cs \<longrightarrow> 60 \<le> s) \<longrightarrow>
            rows_for ''blocking_factor'' (Category c) (readiness_patterns conn') =
            rows_for ''blocking_factor'' (Category c) (readiness_patterns conn)"
    by (auto simp: rows split: option.splits dest: map_of_SomeD)
  have handler: "rows_for ''blocking_factor'' d
                (readiness_patterns (snd (assess_readiness rnd data conn))) =
              rows_for ''blocking_factor'' d (readiness_patterns conn)" for d
  proof (cases "req_answers data")
    case None
    then show ?thesis by (simp add: assess_readiness_def Let_def)
  next
    case (Some answers)
    show ?thesis
    proof (cases "answers = []")
      case True
      then show ?thesis using Some by (simp add: assess_readiness_def Let_def)
    next
      case False
      show ?thesis
        by (simp add: assess_readiness_patterns[OF Some False] rows_for_fold_weak
            rows_for_upsert_scored_other)
    qed
  qed
  show ?thesis using low high handler by blast
qed


text \<open>
  Claim C5. An assessment completed through \<^verbatim>\<open>POST /api/assess\<close> has its patterns logged
  by the handler alone, which never calls \<open>log_patterns\<close>: here ``Data Infrastructure''
  scores 10 and no \<open>blocking_factor\<close> row is written for it (the handler writes
  \<open>weak_category\<close> rows for its three weakest categories, one of them scoring 70),
  while \<open>log_patterns\<close>, run on the same assessment, writes the row with score 10.
\<close>

theorem handler_logs_no_blocking_factor:
  "\<exists>r conn'.
     assess_readiness rnd
       \<lparr>req_company_name = None, req_industry = Some ''Retail'', req_email = None,
        req_answers = Some (int_answers [(''1'', 10), (''2'', 90), (''3'', 90), (''4'', 90),
                                         (''5'', 90), (''6'', 50), (''7'', 70)])\<rparr>
       (example_db [] []) = (Http200 r, conn') \<and>
     py_get (category_scores r) ''Data Infrastructure'' 0 = 10 \<and>
     rows_for ''blocking_factor'' (Category ''Data Infrastructure'') (readiness_patterns conn') = [] \<and>
     map pattern_type (readiness_patterns conn') =
       [''industry_readiness'', ''weak_category'', ''weak_category'', ''weak_category''] \<and>
     rows_for ''weak_category'' (Category ''Decision Authority'') (readiness_patterns conn') =
       [\<lparr>pattern_type = ''weak_category'', pattern_data = Category ''Decision Authority'',
         frequency = 1, avg_score = Some 70\<rparr>] \<and>
     (\<exists>conn''.
        log_patterns rnd
          \<lparr>ad_industry = Some ''Retail'', ad_overall_score = Some (overall_score r),
           ad_category_scores = Some (category_scores r)\<rparr> conn' = Inr conn'' \<and>
        rows_for ''blocking_factor'' (Category ''Data Infrastructure'')
          (readiness_patterns conn'') =
          [\<lparr>pattern_type = ''blocking_factor'', pattern_data = Category ''Data Infrastructure'',
            frequency = 1, avg_score = Some 10\<rparr>])"
proof -
  let ?ians = "[(''1'', 10), (''2'', 90), (''3'', 90), (''4'', 90), (''5'', 90),
                (''6'', 50), (''7'', 70::int)]"
  let ?ans = "int_answers ?ians"
  let ?d = "\<lparr>req_company_name = None, req_industry = Some ''Retail'', req_email = None,
             req_answers = Some ?ans\<rparr>"
  have ne: "?ans \<noteq> []" by (simp add: int_answers_def)
  have "py_round (mean [10, 90, 90, 90, 90, 50, 70]) = 70"
    unfolding mean_def by code_simp
  then have o: "calc_overall_score ?ans = 70"
    by (simp add: calc_overall_score_ints)
  have cs: "calc_category_scores ?ans =
             [(''Data Infrastructure'', 10), (''Process Maturity'', 90),
              (''Team Readiness'', 90), (''Financial Capacity'', 90),
              (''Problem Definition'', 90), (''Technical Foundation'', 50),
              (''Decision Authority'', 70)]"
    by (simp add: calc_category_scores_ints py_get_def)
  have w: "calc_weak_categories (calc_category_scores ?ans) =
             [(''Data Infrastructure'', 10), (''Technical Foundation'', 50),
              (''Decision Authority'', 70)]"
    by (simp add: cs calc_weak_categories_def)
  obtain r conn' where r: "assess_readiness rnd ?d (example_db [] []) = (Http200 r, conn')"
    and c: "category_scores r = calc_category_scores ?ans"
    and ov: "overall_score r = calc_overall_score ?ans"
    using assess_readiness_ok[OF _ ne, of ?d rnd "example_db [] []"] by auto
  have p: "readiness_patterns conn' =
      [\<lparr>pattern_type = ''industry_readiness'', pattern_data = Industry (Some ''Retail''),
         frequency = 1, avg_score = Some 70\<rparr>,
       \<lparr>pattern_type = ''weak_category'', pattern_data = Category ''Data Infrastructure'',
         frequency = 1, avg_score = Some 10\<rparr>,
       \<lparr>pattern_type = ''weak_category'', pattern_data = Category ''Technical Foundation'',
         frequency = 1, avg_score = Some 50\<rparr>,
       \<lparr>pattern_type = ''weak_category'', pattern_data = Category ''Decision Authority'',
         frequency = 1, avg_score = Some 70\<rparr>]"
    using assess_readiness_patterns[OF _ ne, of ?d rnd "example_db [] []"] r
    by (simp add: o w example_db_def truthy_str_def truthy_int_def has_key_def)
  have n: "length (readiness_assessments conn') = 1"
    using assess_readiness_count[OF r] by (simp add: example_db_def)
  have g: "py_get (category_scores r) ''Data Infrastructure'' 0 = 10"
    by (simp add: c cs py_get_def)
  let ?a = "\<lparr>ad_industry = Some ''Retail'', ad_overall_score = Some (overall_score r),
             ad_category_scores = Some (category_scores r)\<rparr>"
  obtain c2 where l: "log_patterns rnd ?a conn' = Inr c2"
    using n by (simp add: log_patterns_def check_analysis_trigger_def Let_def ov o)
  have dist: "distinct (map fst (category_scores r))" by (simp add: c cs)
  have "rows_for ''blocking_factor'' (Category ''Data Infrastructure'') (readiness_patterns c2) =
        upsert_scored rnd ''blocking_factor'' (Category ''Data Infrastructure'') (of_int 10)
          (rows_for ''blocking_factor'' (Category ''Data Infrastructure'') (readiness_patterns conn'))"
    using log_patterns_blocking_factors[OF l _ dist] by (simp add: c cs)
  then have e: "rows_for ''blocking_factor'' (Category ''Data Infrastructure'')
                  (readiness_patterns c2) =
          [\<lparr>pattern_type = ''blocking_factor'', pattern_data = Category ''Data Infrastructure'',
            frequency = 1, avg_score = Some 10\<rparr>]"
    by (simp add: p rows_for_def has_key_def)
  have m3: "rows_for ''blocking_factor'' (Category ''Data Infrastructure'')
              (readiness_patterns conn') = []"
    by (simp add: p rows_for_def has_key_def)
  have m4: "map pattern_type (readiness_patterns conn') =
       [''industry_readiness'', ''weak_category'', ''weak_category'', ''weak_category'']"
    by (simp add: p)
  have m5: "rows_for ''weak_category'' (Category ''Decision Authority'') (readiness_patterns conn') =
       [\<lparr>pattern_type = ''weak_category'', pattern_data = Category ''Decision Authority'',
         frequency = 1, avg_score = Some 70\<rparr>]"
    by (simp add: p rows_for_def has_key_def)
  have inner: "\<exists>conn''.
        log_patterns rnd ?a conn' = Inr conn'' \<and>
        rows_for ''blocking_factor'' (Category ''Data Infrastructure'')
          (readiness_patterns conn'') =
          [\<lparr>pattern_type = ''blocking_factor'', pattern_data = Category ''Data Infrastructure'',
            frequency = 1, avg_score = Some 10\<rparr>]"
    by (intro exI[of _ c2] conjI l e)
  show ?thesis
    by (intro exI[of _ r] exI[of _ conn'] conjI r g m3 m4 m5 inner)
qed

section \<open>The monthly report\<close>

lemma build_opportunities_conversions:
  "build_opportunities rows = Inr os \<Longrightarrow>
   map potential_conversions os =
     map (\<lambda>r. of_nat (frequency r) * (52 / 100)) (filter (\<lambda>r. 5 \<le> frequency r) rows) \<and>
   map market_size os = map frequency (filter (\<lambda>r. 5 \<le> frequency r) rows) \<and>
   map opportunity os =
     map (\<lambda>r. ''Target '' @ fmt_opt (industry_of (pattern_data r)) @ '' - high AI readiness'')
       (filter (\<lambda>r. 5 \<le> frequency r) rows)"
proof (induction rows arbitrary: os)
  case Nil
  then show ?case by simp
next
  case (Cons r rows)
  show ?case
  proof (cases "5 \<le> frequency r")
    case False
    then show ?thesis using Cons by simp
  next
    case True
    then obtain a os' where a: "avg_score r = Some a"
      and b: "build_opportunities rows = Inr os'"
      and os: "os = \<lparr>opportunity = ''Target '' @ fmt_opt (industry_of (pattern_data r)) @
                                       '' - high AI readiness'',
                        market_size = frequency r, avg_readiness = a,
                        potential_conversions = of_nat (frequency r) * (52 / 100)\<rparr> # os'"
      using Cons.prems by (auto split: option.splits sum.splits)
    show ?thesis using True Cons.IH[OF b] by (simp add: os)
  qed
qed

lemma generate_monthly_report_parts:
  assumes "generate_monthly_report conn = Inr rep"
  shows "build_opportunities (take 3 (query_top_industries conn)) = Inr (market_opportunities rep) \<and>
         recommendations rep =
           generate_recommendations (market_opportunities rep) (query_blocking_factors conn)"
  using assms
  by (auto simp: generate_monthly_report_def Let_def split: sum.splits)

lemma py_int_nonneg: "0 \<le> x \<Longrightarrow> py_int x = \<lfloor>x\<rfloor>"
  by (simp add: py_int_def)

text \<open>
  Claim C9, as amended. In a report that is produced, the market opportunities are
  those of the first three rows of the top-industries query whose frequency is at least
  5, each with \<open>potential_conversions = frequency * 0.52\<close>; when there is one, the first
  recommendation names the first opportunity with its potential-conversion count
  truncated to an integer (\<^verbatim>\<open>int(...)\<close>, the floor of a non-negative number).
\<close>

theorem report_opportunities_truncated:
  assumes "generate_monthly_report conn = Inr rep"
  shows "map potential_conversions (market_opportunities rep) =
           map (\<lambda>r. of_nat (frequency r) * (52 / 100))
             (filter (\<lambda>r. 5 \<le> frequency r) (take 3 (query_top_industries conn))) \<and>
         (market_opportunities rep \<noteq> [] \<longrightarrow>
            recommendations rep \<noteq> [] \<and>
            hd (recommendations rep) =
              ''TARGET: '' @ opportunity (hd (market_opportunities rep)) @ '' - '' @
              str_int \<lfloor>potential_conversions (hd (market_opportunities rep))\<rfloor> @
              '' potential Nuru conversions'')"
proof -
  have b: "build_opportunities (take 3 (query_top_industries conn)) = Inr (market_opportunities rep)"
    and g: "recommendations rep =
           generate_recommendations (market_opportunities rep) (query_blocking_factors conn)"
    using generate_monthly_report_parts[OF assms] by simp_all
  have pc: "map potential_conversions (market_opportunities rep) =
           map (\<lambda>r. of_nat (frequency r) * (52 / 100))
             (filter (\<lambda>r. 5 \<le> frequency r) (take 3 (query_top_industries conn)))"
    using build_opportunities_conversions[OF b] by simp
  have rec: "recommendations rep \<noteq> [] \<and>
            hd (recommendations rep) =
              ''TARGET: '' @ opportunity (hd (market_opportunities rep)) @ '' - '' @
              str_int \<lfloor>potential_conversions (hd (market_opportunities rep))\<rfloor> @
              '' potential Nuru conversions''"
    if ne: "market_opportunities rep \<noteq> []"
  proof -
    obtain top rest where m: "market_opportunities rep = top # rest"
      using ne by (cases "market_opportunities rep") auto
    have "potential_conversions top \<in> set (map potential_conversions (market_opportunities rep))"
      by (simp add: m)
    then have "0 \<le> potential_conversions top"
      unfolding pc by auto
    then have "py_int (potential_conversions top) = \<lfloor>potential_conversions top\<rfloor>"
      by (rule py_int_nonneg)
    then show ?thesis
      by (simp add: g m generate_recommendations_def)
  qed
  show ?thesis using pc rec by blast
qed

lemma string_of_small [simp]: "str_int 2 = ''2''" "str_int 3 = ''3''"
  by (simp_all add: str_int_def str_nat.simps digit_def)

theorem report_rounded_count_counterexample:
  "\<exists>rep.
     generate_monthly_report
       (example_db [80, 80, 80, 80, 80]
          [\<lparr>pattern_type = ''industry_readiness'', pattern_data = Industry (Some ''Retail''),
            frequency = 5, avg_score = Some 80\<rparr>]) = Inr rep \<and>
     map potential_conversions (market_opportunities rep) = [13 / 5] \<and>
     py_round (13 / 5) = 3 \<and>
     recommendations rep =
       [''TARGET: Target Retail - high AI readiness - 2 potential Nuru conversions''] \<and>
     recommendations rep \<noteq>
       [''TARGET: Target Retail - high AI readiness - '' @ str_int (py_round (13 / 5)) @
        '' potential Nuru conversions'']"
proof -
  have f: "py_int (13 / 5) = 2" by code_simp
  have g: "py_round (13 / 5) = 3" by code_simp
  show ?thesis
    by (simp add: generate_monthly_report_def example_db_def example_assessment_def
        query_top_industries_def query_blocking_factors_def generate_recommendations_def
        industry_of_def fmt_opt_def Let_def f g)
qed

theorem report_opportunities_truncated_witness:
  "\<exists>rep.
     generate_monthly_report
       (example_db [80, 50, 65]
          [\<lparr>pattern_type = ''industry_readiness'', pattern_data = Industry (Some ''Retail''),
            frequency = 7, avg_score = Some 65\<rparr>,
           \<lparr>pattern_type = ''industry_readiness'', pattern_data = Industry (Some ''Health''),
            frequency = 4, avg_score = Some 90\<rparr>]) = Inr rep \<and>
     map potential_conversions (market_opportunities rep) = [91 / 25] \<and>
     hd (recommendations rep) =
       ''TARGET: Target Retail - high AI readiness - 3 potential Nuru conversions''"
proof -
  let ?db = "example_db [80, 50, 65]
          [\<lparr>pattern_type = ''industry_readiness'', pattern_data = Industry (Some ''Retail''),
            frequency = 7, avg_score = Some 65\<rparr>,
           \<lparr>pattern_type = ''industry_readiness'', pattern_data = Industry (Some ''Health''),
            frequency = 4, avg_score = Some 90\<rparr>]"
  have f: "py_int (91 / 25) = 3" by code_simp
  have fl: "\<lfloor>91 / 25 :: rat\<rfloor> = 3" by code_simp
  obtain rep where r: "generate_monthly_report ?db = Inr rep"
    and o: "map opportunity (market_opportunities rep) = [''Target Retail - high AI readiness'']"
    by (simp add: generate_monthly_report_def example_db_def example_assessment_def
        query_top_industries_def query_blocking_factors_def generate_recommendations_def
        industry_of_def fmt_opt_def Let_def f)
  have q: "take 3 (query_top_industries ?db) =
          [\<lparr>pattern_type = ''industry_readiness'', pattern_data = Industry (Some ''Health''),
            frequency = 4, avg_score = Some 90\<rparr>,
           \<lparr>pattern_type = ''industry_readiness'', pattern_data = Industry (Some ''Retail''),
            frequency = 7, avg_score = Some 65\<rparr>]"
    by (simp add: query_top_industries_def example_db_def)
  have m: "market_opportunities rep \<noteq> []" using o by auto
  then have h: "opportunity (hd (market_opportunities rep)) = ''Target Retail - high AI readiness''"
    using o by (cases "market_opportunities rep") auto
  have pc: "map potential_conversions (market_opportunities rep) = [91 / 25]"
    using report_opportunities_truncated[OF r] by (simp add: q)
  then have hp: "potential_conversions (hd (market_opportunities rep)) = 91 / 25"
    using m by (cases "market_opportunities rep") auto
  show ?thesis
    using report_opportunities_truncated[OF r] r m pc
    by (simp add: h hp fl)
qed


end
